theory Spec2Isabelle
  imports Complex_Main "HOL-Library.AList" "HOL-Library.Sublist"
begin

section \<open>Python values, errors and dictionaries\<close>

text \<open>
  The classes of the exceptions that the modelled code raises itself or that the
  interpreter raises inside it. An error is its class together with its message.
\<close>

datatype exc = RuntimeError | RuntimeWarning | ValueError | KeyError | TypeError
  | AttributeError | IndexError

type_synonym pyerr = "exc \<times> string"

text \<open>
  The values that travel through the program: what the serializer carries and what gates
  return. A dictionary is an association list in insertion order; a float is read as the
  number it denotes. Keys are compared structurally (Python would also identify equal
  numbers of different types, such as \<^verbatim>\<open>1\<close>, \<^verbatim>\<open>1.0\<close> and \<^verbatim>\<open>True\<close>; nothing below depends
  on such keys).
\<close>

datatype pyval = PNone | PBool bool | PInt int | PFloat real | PStr string
  | PList "pyval list" | PDict "(pyval \<times> pyval) list"

text \<open>
  A Python \<^verbatim>\<open>dict\<close> is an association list: \<^verbatim>\<open>d[k] = v\<close> is \<^const>\<open>AList.update\<close>
  (in place when the key is there, at the end otherwise), \<^verbatim>\<open>del d[k]\<close> is
  \<^const>\<open>AList.delete\<close>, \<^verbatim>\<open>d.get(k)\<close> is \<^const>\<open>map_of\<close>. A Python \<^verbatim>\<open>set\<close> is a list
  without duplicates; where the code iterates over a set, the list's order stands for
  the order the interpreter happens to choose.
\<close>

definition dict_update :: "('k \<times> 'v) list \<Rightarrow> ('k \<times> 'v) list \<Rightarrow> ('k \<times> 'v) list" where
  "dict_update d other = foldl (\<lambda>acc (k, v). AList.update k v acc) d other"

definition set_add :: "'k \<Rightarrow> 'k list \<Rightarrow> 'k list" where
  "set_add x s = (if x \<in> set s then s else s @ [x])"

text \<open>Lists and dictionaries cannot be hashed, so they cannot be keys or set members.\<close>

fun hashable :: "pyval \<Rightarrow> bool" where
  "hashable (PList xs) = False"
| "hashable (PDict kvs) = False"
| "hashable v = True"

definition quoted :: "string \<Rightarrow> string" where
  "quoted s = CHR 0x27 # s @ [CHR 0x27]"

fun join :: "string \<Rightarrow> string list \<Rightarrow> string" where
  "join sep [] = []"
| "join sep [x] = x"
| "join sep (x # y # ys) = x @ sep @ join sep (y # ys)"

section \<open>Graph primitives (\<^verbatim>\<open>_graph.py\<close>)\<close>

text \<open>A graph is a dictionary from a node's key to the set of its successors.\<close>

type_synonym 'k graph = "('k \<times> 'k list) list"

definition add_node :: "'k graph \<Rightarrow> 'k \<Rightarrow> 'k list option \<Rightarrow> 'k graph" where
  "add_node graph key container =
     AList.update key (case container of None \<Rightarrow> [] | Some c \<Rightarrow> c) graph"

text \<open>
  \<^verbatim>\<open>remove_node\<close> does nothing unless the key is a node; then it deletes the node and
  removes the key from the successor set of every node that is left.
\<close>

definition remove_node :: "'k graph \<Rightarrow> 'k \<Rightarrow> 'k graph" where
  "remove_node graph key =
     (if key \<in> fst ` set graph
      then map (\<lambda>(node_key, succs).
                  (node_key, if key \<in> set succs then removeAll key succs else succs))
               (AList.delete key graph)
      else graph)"

text \<open>
  \<^verbatim>\<open>add_edge\<close> raises \<^verbatim>\<open>ValueError\<close> on a self-loop; \<^verbatim>\<open>graph[from_key]\<close> raises
  \<^verbatim>\<open>KeyError\<close> when the source is no node. The target is not looked up.
\<close>

definition add_edge :: "'k graph \<Rightarrow> 'k \<Rightarrow> 'k \<Rightarrow> pyerr + 'k graph" where
  "add_edge graph from_key to_key =
     (if from_key = to_key then Inl (ValueError, ''A node cannot be connected to itself'')
      else case map_of graph from_key of
             None \<Rightarrow> Inl (KeyError, [])
           | Some succs \<Rightarrow> Inr (AList.update from_key (set_add to_key succs) graph))"

definition get_in_neighbors :: "'k graph \<Rightarrow> 'k \<Rightarrow> 'k list" where
  "get_in_neighbors graph key = remdups (map fst (filter (\<lambda>(k, n). key \<in> set n) graph))"

definition get_out_neighbors :: "'k graph \<Rightarrow> 'k \<Rightarrow> pyerr + 'k list" where
  "get_out_neighbors graph key =
     (case map_of graph key of None \<Rightarrow> Inl (KeyError, []) | Some n \<Rightarrow> Inr n)"

section \<open>Dotted-path lookup (\<^verbatim>\<open>_utils.py\<close>)\<close>

text \<open>\<^verbatim>\<open>str.split\<close> on a one-character delimiter: the pieces between the delimiters.\<close>

fun split_on :: "char \<Rightarrow> string \<Rightarrow> string list" where
  "split_on d [] = [[]]"
| "split_on d (c # cs) =
     (if c = d then [] # split_on d cs
      else case split_on d cs of
             [] \<Rightarrow> [[c]]
           | piece # pieces \<Rightarrow> (c # piece) # pieces)"

fun is_substring :: "string \<Rightarrow> string \<Rightarrow> bool" where
  "is_substring k [] = (k = [])"
| "is_substring k (c # cs) = (prefix k (c # cs) \<or> is_substring k cs)"

text \<open>
  \<^verbatim>\<open>key in mapping\<close> for a string key: a key test on a dictionary, a membership test on a
  list, a substring test on a string, and \<^verbatim>\<open>TypeError\<close> on a number or a boolean.
\<close>

fun py_contains :: "pyval \<Rightarrow> string \<Rightarrow> pyerr + bool" where
  "py_contains (PDict kvs) key = Inr (PStr key \<in> fst ` set kvs)"
| "py_contains (PList xs) key = Inr (PStr key \<in> set xs)"
| "py_contains (PStr s) key = Inr (is_substring key s)"
| "py_contains v key = Inl (TypeError, ''argument is not iterable'')"

text \<open>\<^verbatim>\<open>mapping[key]\<close> for a string key: only a dictionary can be indexed by a string.\<close>

fun py_getitem :: "pyval \<Rightarrow> string \<Rightarrow> pyerr + pyval" where
  "py_getitem (PDict kvs) key =
     (case map_of kvs (PStr key) of None \<Rightarrow> Inl (KeyError, quoted key) | Some v \<Rightarrow> Inr v)"
| "py_getitem (PList xs) key = Inl (TypeError, ''list indices must be integers or slices, not str'')"
| "py_getitem (PStr s) key = Inl (TypeError, ''string indices must be integers'')"
| "py_getitem v key = Inl (TypeError, ''object is not subscriptable'')"

fun get_nested_util :: "string list \<Rightarrow> pyval \<Rightarrow> pyerr + pyval" where
  "get_nested_util [] mapping = Inl (IndexError, ''pop from empty list'')"
| "get_nested_util (key # route) mapping =
     (if mapping = PNone then Inr PNone
      else case py_contains mapping key of
             Inl e \<Rightarrow> Inl e
           | Inr False \<Rightarrow> Inr PNone
           | Inr True \<Rightarrow>
               (case py_getitem mapping key of
                  Inl e \<Rightarrow> Inl e
                | Inr v \<Rightarrow> if route = [] then Inr v else get_nested_util route v))"

definition get_nested :: "string \<Rightarrow> pyval \<Rightarrow> char \<Rightarrow> pyerr + pyval" where
  "get_nested keys mapping delimiter = get_nested_util (split_on delimiter keys) mapping"

section \<open>Transport protocol (\<^verbatim>\<open>connection.py\<close>)\<close>

text \<open>
  The two envelopes are dataclasses. What the decoder reads of a dataclass is its
  \<^verbatim>\<open>__annotations__\<close> (field and declared type, in declaration order) and its class
  attributes: a field declared with a default is a class attribute holding that default,
  a field declared without one is no attribute of the class at all.
\<close>

datatype pytype = TFloat | TList | TDict | TStr

fun isinstance :: "pyval \<Rightarrow> pytype \<Rightarrow> bool" where
  "isinstance (PFloat x) TFloat = True"
| "isinstance (PList xs) TList = True"
| "isinstance (PDict kvs) TDict = True"
| "isinstance (PStr s) TStr = True"
| "isinstance v t = False"

record datacls =
  cls_name :: string
  annotations :: "(string \<times> pytype) list"
  class_attrs :: "(string \<times> pyval) list"

definition Request :: datacls where
  "Request = \<lparr>cls_name = ''Request'',
     annotations = [(''sent_time'', TFloat), (''items'', TList)],
     class_attrs = []\<rparr>"

definition Response :: datacls where
  "Response = \<lparr>cls_name = ''Response'',
     annotations = [(''received_time'', TFloat), (''sent_time'', TFloat),
                    (''feedback'', TDict), (''error'', TStr)],
     class_attrs = [(''feedback'', PNone), (''error'', PNone)]\<rparr>"

text \<open>An instance of a dataclass: the values of its fields, in declaration order.\<close>

type_synonym dc_instance = "(string \<times> pyval) list"

text \<open>
  The serializer is the \<^verbatim>\<open>msgpack\<close> library, which is not part of the repository: its
  two functions are parameters, \<open>dumps\<close> from values to bytes (of some type \<open>'b\<close>) and
  \<open>loads\<close> back, which may fail.
\<close>

definition encode_transaction :: "(pyval \<Rightarrow> 'b) \<Rightarrow> (pyval \<times> pyval) list \<Rightarrow> 'b" where
  "encode_transaction dumps to_encode = dumps (PDict to_encode)"

text \<open>\<^verbatim>\<open>mapping.get(field, None)\<close>: only a dictionary has the method.\<close>

fun mapping_get :: "pyval \<Rightarrow> string \<Rightarrow> pyerr + pyval" where
  "mapping_get (PDict kvs) field =
     Inr (case map_of kvs (PStr field) of None \<Rightarrow> PNone | Some v \<Rightarrow> v)"
| "mapping_get v field = Inl (AttributeError, ''object has no attribute '' @ quoted ''get'')"

text \<open>\<^verbatim>\<open>getattr(datacls, field)\<close>: raises \<^verbatim>\<open>AttributeError\<close> when the class has no such attribute.\<close>

definition getattr_cls :: "datacls \<Rightarrow> string \<Rightarrow> pyerr + pyval" where
  "getattr_cls datacls field =
     (case map_of (class_attrs datacls) field of
        None \<Rightarrow> Inl (AttributeError, ''type object '' @ quoted (cls_name datacls)
                        @ '' has no attribute '' @ quoted field)
      | Some v \<Rightarrow> Inr v)"

text \<open>
  The set comprehension of \<^verbatim>\<open>_get_unsatisfied_fields\<close>, field by field. Python's \<^verbatim>\<open>and\<close>
  evaluates \<^verbatim>\<open>getattr(datacls, field)\<close> only when the type test has failed.
\<close>

fun unsatisfied_among :: "datacls \<Rightarrow> (string \<times> pytype) list \<Rightarrow> pyval \<Rightarrow> pyerr + string list" where
  "unsatisfied_among datacls [] mapping = Inr []"
| "unsatisfied_among datacls ((field, field_type) # rest) mapping =
     (case mapping_get mapping field of
        Inl e \<Rightarrow> Inl e
      | Inr v \<Rightarrow>
          if isinstance v field_type then unsatisfied_among datacls rest mapping
          else (case getattr_cls datacls field of
                  Inl e \<Rightarrow> Inl e
                | Inr d \<Rightarrow>
                    (case unsatisfied_among datacls rest mapping of
                       Inl e \<Rightarrow> Inl e
                     | Inr found \<Rightarrow> Inr (if d \<noteq> PNone then field # found else found))))"

definition get_unsatisfied_fields :: "datacls \<Rightarrow> pyval \<Rightarrow> pyerr + string list" where
  "get_unsatisfied_fields datacls mapping =
     unsatisfied_among datacls (annotations datacls) mapping"

text \<open>
  \<^verbatim>\<open>datacls(**decoded)\<close>: the keywords must be strings and fields of the class, every
  field without a default must be given, and a field that is not given takes its default.
\<close>

fun keyword_names :: "(pyval \<times> pyval) list \<Rightarrow> pyerr + (string \<times> pyval) list" where
  "keyword_names [] = Inr []"
| "keyword_names ((PStr k, v) # rest) =
     (case keyword_names rest of Inl e \<Rightarrow> Inl e | Inr kvs \<Rightarrow> Inr ((k, v) # kvs))"
| "keyword_names ((k, v) # rest) = Inl (TypeError, ''keywords must be strings'')"

definition dataclass_init :: "datacls \<Rightarrow> pyval \<Rightarrow> pyerr + dc_instance" where
  "dataclass_init datacls decoded =
     (case decoded of
        PDict kvs \<Rightarrow>
          (case keyword_names kvs of
             Inl e \<Rightarrow> Inl e
           | Inr kwargs \<Rightarrow>
               (case filter (\<lambda>k. k \<notin> fst ` set (annotations datacls)) (map fst kwargs) of
                  k # ks \<Rightarrow> Inl (TypeError, ''__init__() got an unexpected keyword argument ''
                                     @ quoted k)
                | [] \<Rightarrow>
                    (case filter (\<lambda>f. map_of kwargs f = None \<and> map_of (class_attrs datacls) f = None)
                                 (map fst (annotations datacls)) of
                       f # fs \<Rightarrow> Inl (TypeError, ''__init__() missing required argument ''
                                          @ quoted f)
                     | [] \<Rightarrow>
                         Inr (map (\<lambda>(f, t).
                                (f, case map_of kwargs f of
                                      Some v \<Rightarrow> v
                                    | None \<Rightarrow> (case map_of (class_attrs datacls) f of
                                                 Some d \<Rightarrow> d | None \<Rightarrow> PNone)))
                              (annotations datacls)))))
      | _ \<Rightarrow> Inl (TypeError, ''argument after ** must be a mapping''))"

definition decode_transaction :: "('b \<Rightarrow> pyerr + pyval) \<Rightarrow> datacls \<Rightarrow> 'b \<Rightarrow> pyerr + dc_instance" where
  "decode_transaction loads datacls to_decode =
     (case loads to_decode of
        Inl e \<Rightarrow> Inl e
      | Inr decoded \<Rightarrow>
          (case get_unsatisfied_fields datacls decoded of
             Inl e \<Rightarrow> Inl e
           | Inr unsatisfied \<Rightarrow>
               if unsatisfied \<noteq> []
               then Inl (ValueError, ''Received does not satisfy the following fields: ''
                                      @ join '', '' unsatisfied)
               else dataclass_init datacls decoded))"

definition decode_request :: "('b \<Rightarrow> pyerr + pyval) \<Rightarrow> 'b \<Rightarrow> pyerr + dc_instance" where
  "decode_request loads to_decode = decode_transaction loads Request to_decode"

definition decode_response :: "('b \<Rightarrow> pyerr + pyval) \<Rightarrow> 'b \<Rightarrow> pyerr + dc_instance" where
  "decode_response loads to_decode = decode_transaction loads Response to_decode"

text \<open>
  A well-formed record of a dataclass has exactly the declared fields, in order, each
  holding a value of its declared type or, where the declared default is \<^verbatim>\<open>None\<close>, \<^verbatim>\<open>None\<close>.
  The mapping that is sent for it binds each field's name to its value.
\<close>

definition well_formed :: "datacls \<Rightarrow> dc_instance \<Rightarrow> bool" where
  "well_formed datacls r \<longleftrightarrow>
     map fst r = map fst (annotations datacls) \<and>
     list_all2 (\<lambda>(f, v) (f', t). isinstance v t \<or> (v = PNone \<and> map_of (class_attrs datacls) f = Some PNone))
               r (annotations datacls)"

definition as_mapping :: "dc_instance \<Rightarrow> (pyval \<times> pyval) list" where
  "as_mapping r = map (\<lambda>(f, v). (PStr f, v)) r"

section \<open>Worker runtime (\<^verbatim>\<open>worker.py\<close>)\<close>

subsection \<open>Unpacking, truth values and keyword arguments\<close>

text \<open>Iterating over a value, as tuple unpacking and \<^verbatim>\<open>set(...)\<close> do.\<close>

fun py_iter :: "pyval \<Rightarrow> pyerr + pyval list" where
  "py_iter (PList xs) = Inr xs"
| "py_iter (PStr s) = Inr (map (\<lambda>c. PStr [c]) s)"
| "py_iter (PDict kvs) = Inr (map fst kvs)"
| "py_iter v = Inl (TypeError, ''object is not iterable'')"

text \<open>\<^verbatim>\<open>method, resource, kwargs = item\<close>\<close>

definition unpack3 :: "pyval \<Rightarrow> pyerr + (pyval \<times> pyval \<times> pyval)" where
  "unpack3 item =
     (case py_iter item of
        Inl e \<Rightarrow> Inl e
      | Inr xs \<Rightarrow>
          (case xs of
             [a, b, c] \<Rightarrow> Inr (a, b, c)
           | _ \<Rightarrow> Inl (ValueError,
                    if length xs < 3 then ''not enough values to unpack (expected 3)''
                    else ''too many values to unpack (expected 3)'')))"

fun py_truthy :: "pyval \<Rightarrow> bool" where
  "py_truthy PNone = False"
| "py_truthy (PBool b) = b"
| "py_truthy (PInt i) = (i \<noteq> 0)"
| "py_truthy (PFloat x) = (x \<noteq> 0)"
| "py_truthy (PStr s) = (s \<noteq> [])"
| "py_truthy (PList xs) = (xs \<noteq> [])"
| "py_truthy (PDict kvs) = (kvs \<noteq> [])"

text \<open>
  Calling a method with \<^verbatim>\<open>**kwargs\<close>: the keywords must be strings, each must name a
  parameter, and every parameter without a default must be given. All defaults of the
  worker's methods are \<^verbatim>\<open>None\<close>, which is what \<open>kwarg\<close> gives for a parameter not passed.
\<close>

definition bind_kwargs ::
  "string list \<Rightarrow> string list \<Rightarrow> (pyval \<times> pyval) list \<Rightarrow> pyerr + (string \<times> pyval) list" where
  "bind_kwargs required optional kwargs =
     (case keyword_names kwargs of
        Inl e \<Rightarrow> Inl e
      | Inr kw \<Rightarrow>
          (case filter (\<lambda>k. k \<notin> set (required @ optional)) (map fst kw) of
             k # ks \<Rightarrow> Inl (TypeError, ''got an unexpected keyword argument '' @ quoted k)
           | [] \<Rightarrow>
               (case filter (\<lambda>p. p \<notin> fst ` set kw) required of
                  p # ps \<Rightarrow> Inl (TypeError, ''missing required positional argument '' @ quoted p)
                | [] \<Rightarrow> Inr kw)))"

definition kwarg :: "(string \<times> pyval) list \<Rightarrow> string \<Rightarrow> pyval" where
  "kwarg kw name = (case map_of kw name of Some v \<Rightarrow> v | None \<Rightarrow> PNone)"

text \<open>\<^verbatim>\<open>d[key]\<close> on a dictionary whose keys are strings, for a key of any type.\<close>

definition getitem_str_keyed :: "(pyval \<Rightarrow> string) \<Rightarrow> (string \<times> 'a) list \<Rightarrow> pyval \<Rightarrow> pyerr + 'a" where
  "getitem_str_keyed str d key =
     (if \<not> hashable key then Inl (TypeError, ''unhashable type'')
      else case key of
             PStr s \<Rightarrow> (case map_of d s of None \<Rightarrow> Inl (KeyError, quoted s) | Some v \<Rightarrow> Inr v)
           | _ \<Rightarrow> Inl (KeyError, str key))"

text \<open>
  \<^verbatim>\<open>inner_merge\<close>: the item under \<open>key\<close> is a dictionary whenever it exists (nothing else
  is ever stored by the two callers), and is then updated; otherwise it is set.
\<close>

definition inner_merge ::
  "('k \<times> ('j \<times> 'v) list) list \<Rightarrow> 'k \<Rightarrow> ('j \<times> 'v) list \<Rightarrow> ('k \<times> ('j \<times> 'v) list) list" where
  "inner_merge to_update key mapping =
     (case map_of to_update key of
        Some d \<Rightarrow> AList.update key (dict_update d mapping) to_update
      | None \<Rightarrow> AList.update key mapping to_update)"

subsection \<open>Platform and components\<close>

text \<open>
  Components are hardware drivers, opaque to the worker. What the worker needs of them is
  a parameter: the registry of platform types (for each, its component types with the
  constructor's required arguments), the call \<^verbatim>\<open>getattr(component, operation)(**kwargs)\<close>,
  which returns the component as the call left it, \<^verbatim>\<open>hasattr(component, "read")\<close> and
  \<^verbatim>\<open>read()\<close>, \<^verbatim>\<open>cleanup()\<close>, and the interpreter's \<^verbatim>\<open>str\<close> for the values put into messages.
\<close>

record 'c ctor =
  required_args :: "string list"
  construct :: "(string \<times> pyval) list \<Rightarrow> pyerr + 'c"

record 'c hardware =
  platform_types :: "(string \<times> (string \<times> 'c ctor) list) list"
  invoke :: "'c \<Rightarrow> pyval \<Rightarrow> pyval \<Rightarrow> pyerr + 'c"
  has_read :: "'c \<Rightarrow> bool"
  read_component :: "'c \<Rightarrow> pyerr + pyval"
  cleanup :: "'c \<Rightarrow> pyerr + unit"
  to_str :: "pyval \<Rightarrow> string"

record 'c platform =
  component_types :: "(string \<times> 'c ctor) list"
  components :: "(pyval \<times> 'c) list"

record 'c worker =
  platform :: "'c platform option"
  routines :: "(pyval \<times> (pyval \<times> pyval \<times> pyval \<times> pyval)) list"

definition component_not_found :: "'c hardware \<Rightarrow> pyval \<Rightarrow> pyerr" where
  "component_not_found hw key =
     (RuntimeError, ''Component '' @ quoted (to_str hw key) @ '' could not be found.'')"

definition platform_remove_component ::
  "'c hardware \<Rightarrow> 'c platform \<Rightarrow> pyval \<Rightarrow> 'c platform \<times> (pyerr + pyval)" where
  "platform_remove_component hw p key =
     (if \<not> hashable key then (p, Inl (TypeError, ''unhashable type''))
      else case map_of (components p) key of
             None \<Rightarrow> (p, Inr PNone)
           | Some c \<Rightarrow>
               (case cleanup hw c of
                  Inl e \<Rightarrow> (p, Inl e)
                | Inr u \<Rightarrow> (p\<lparr>components := AList.delete key (components p)\<rparr>, Inr PNone)))"

definition platform_add_component ::
  "'c hardware \<Rightarrow> 'c platform \<Rightarrow> pyval \<Rightarrow> pyval \<Rightarrow> (string \<times> pyval) list
     \<Rightarrow> 'c platform \<times> (pyerr + pyval)" where
  "platform_add_component hw p key type kwargs =
     (case platform_remove_component hw p key of
        (p1, Inl e) \<Rightarrow> (p1, Inl e)
      | (p1, Inr u) \<Rightarrow>
          if \<not> hashable type then (p1, Inl (TypeError, ''unhashable type''))
          else case (case type of PStr t \<Rightarrow> map_of (component_types p1) t | _ \<Rightarrow> None) of
                 None \<Rightarrow>
                   (p1, Inl (RuntimeError, ''Component type '' @ quoted (to_str hw type)
                               @ '' is not supported. Try: ''
                               @ join '', '' (map fst (component_types p1))))
               | Some ct \<Rightarrow>
                   if \<not> set (required_args ct) \<subseteq> fst ` set kwargs
                   then (p1, Inl (RuntimeError, ''Component setup for '' @ quoted (to_str hw key)
                                    @ '' does not satisfy all the required fields (''
                                    @ join '', '' (required_args ct) @ '').''))
                   else (case construct ct kwargs of
                           Inl e \<Rightarrow> (p1, Inl e)
                         | Inr c \<Rightarrow>
                             (p1\<lparr>components := AList.update key c (components p1)\<rparr>, Inr PNone)))"

subsection \<open>The worker's methods\<close>

definition add_platform :: "'c hardware \<Rightarrow> 'c worker \<Rightarrow> pyval \<Rightarrow> 'c worker \<times> (pyerr + pyval)" where
  "add_platform hw w type =
     (case getitem_str_keyed (to_str hw) (platform_types hw) type of
        Inl e \<Rightarrow> (w, Inl e)
      | Inr cts \<Rightarrow> (w\<lparr>platform := Some \<lparr>component_types = cts, components = []\<rparr>\<rparr>, Inr PNone))"

definition remove_platform :: "'c worker \<Rightarrow> 'c worker \<times> (pyerr + pyval)" where
  "remove_platform w = (w\<lparr>platform := None\<rparr>, Inr PNone)"

text \<open>\<^verbatim>\<open>key in self._platform\<close>: \<^verbatim>\<open>TypeError\<close> when no platform is set.\<close>

definition in_platform :: "'c worker \<Rightarrow> pyval \<Rightarrow> pyerr + bool" where
  "in_platform w key =
     (case platform w of
        None \<Rightarrow> Inl (TypeError, ''argument of type '' @ quoted ''NoneType'' @ '' is not iterable'')
      | Some p \<Rightarrow>
          if \<not> hashable key then Inl (TypeError, ''unhashable type'')
          else Inr (key \<in> fst ` set (components p)))"

definition add_routine ::
  "'c hardware \<Rightarrow> 'c worker \<Rightarrow> pyval \<Rightarrow> pyval \<Rightarrow> pyval \<Rightarrow> pyval \<Rightarrow> pyval
     \<Rightarrow> 'c worker \<times> (pyerr + pyval)" where
  "add_routine hw w key interval executor operation kwargs =
     (case in_platform w executor of
        Inl e \<Rightarrow> (w, Inl e)
      | Inr found \<Rightarrow>
          if \<not> found then (w, Inl (component_not_found hw executor))
          else if \<not> hashable key then (w, Inl (TypeError, ''unhashable type''))
          else (w\<lparr>routines := AList.update key (executor, operation, kwargs, interval) (routines w)\<rparr>,
                Inr PNone))"

definition remove_routine :: "'c worker \<Rightarrow> pyval \<Rightarrow> 'c worker \<times> (pyerr + pyval)" where
  "remove_routine w key =
     (if \<not> hashable key then (w, Inl (TypeError, ''unhashable type''))
      else (w\<lparr>routines := AList.delete key (routines w)\<rparr>, Inr PNone))"

definition none_has_no_attribute :: "string \<Rightarrow> pyerr" where
  "none_has_no_attribute name =
     (AttributeError, quoted ''NoneType'' @ '' object has no attribute '' @ quoted name)"

definition add_component ::
  "'c hardware \<Rightarrow> 'c worker \<Rightarrow> pyval \<Rightarrow> pyval \<Rightarrow> pyval \<Rightarrow> 'c worker \<times> (pyerr + pyval)" where
  "add_component hw w key type setup =
     (case platform w of
        None \<Rightarrow> (w, Inl (none_has_no_attribute ''add_component''))
      | Some p \<Rightarrow>
          (case (if setup \<noteq> PNone then setup else PDict []) of
             PDict kvs \<Rightarrow>
               (case keyword_names kvs of
                  Inl e \<Rightarrow> (w, Inl e)
                | Inr kw \<Rightarrow>
                    if ''key'' \<in> fst ` set kw \<or> ''type'' \<in> fst ` set kw
                    then (w, Inl (TypeError, ''got multiple values for argument''))
                    else (case platform_add_component hw p key type kw of
                            (p', r) \<Rightarrow> (w\<lparr>platform := Some p'\<rparr>, r)))
           | _ \<Rightarrow> (w, Inl (TypeError, ''argument after ** must be a mapping''))))"

definition remove_component :: "'c hardware \<Rightarrow> 'c worker \<Rightarrow> pyval \<Rightarrow> 'c worker \<times> (pyerr + pyval)" where
  "remove_component hw w key =
     (case platform w of
        None \<Rightarrow> (w, Inl (none_has_no_attribute ''remove_component''))
      | Some p \<Rightarrow>
          (case platform_remove_component hw p key of
             (p', r) \<Rightarrow> (w\<lparr>platform := Some p'\<rparr>, r)))"

definition execute_component ::
  "'c hardware \<Rightarrow> 'c worker \<Rightarrow> pyval \<Rightarrow> pyval \<Rightarrow> pyval \<Rightarrow> 'c worker \<times> (pyerr + pyval)" where
  "execute_component hw w key operation kwargs =
     (case in_platform w key of
        Inl e \<Rightarrow> (w, Inl e)
      | Inr found \<Rightarrow>
          if \<not> found then (w, Inl (component_not_found hw key))
          else (case platform w of
                  None \<Rightarrow> (w, Inl (TypeError, ''object is not subscriptable''))
                | Some p \<Rightarrow>
                    (case map_of (components p) key of
                       None \<Rightarrow> (w, Inl (KeyError, to_str hw key))
                     | Some c \<Rightarrow>
                         (case invoke hw c operation (if kwargs \<noteq> PNone then kwargs else PDict []) of
                            Inl e \<Rightarrow> (w, Inl e)
                          | Inr c' \<Rightarrow>
                              (w\<lparr>platform := Some (p\<lparr>components := AList.update key c' (components p)\<rparr>)\<rparr>,
                               Inr PNone)))))"

text \<open>The dictionary comprehension of \<^verbatim>\<open>get_observations\<close>, component by component.\<close>

fun observe :: "'c hardware \<Rightarrow> pyval list \<Rightarrow> (pyval \<times> 'c) list \<Rightarrow> pyerr + (pyval \<times> pyval) list" where
  "observe hw to_read_from [] = Inr []"
| "observe hw to_read_from ((tag, component) # rest) =
     (if has_read hw component \<and> tag \<in> set to_read_from
      then (case read_component hw component of
              Inl e \<Rightarrow> Inl e
            | Inr v \<Rightarrow>
                (case observe hw to_read_from rest of
                   Inl e \<Rightarrow> Inl e
                 | Inr obs \<Rightarrow> Inr ((tag, v) # obs)))
      else observe hw to_read_from rest)"

definition get_observations :: "'c hardware \<Rightarrow> 'c worker \<Rightarrow> pyval \<Rightarrow> 'c worker \<times> (pyerr + pyval)" where
  "get_observations hw w selected =
     (case (if py_truthy selected
            then (case py_iter selected of
                    Inl e \<Rightarrow> Inl e
                  | Inr xs \<Rightarrow> if list_all hashable xs then Inr (remdups xs)
                              else Inl (TypeError, ''unhashable type''))
            else (case platform w of
                    None \<Rightarrow> Inl (none_has_no_attribute ''keys'')
                  | Some p \<Rightarrow> Inr (map fst (components p)))) of
        Inl e \<Rightarrow> (w, Inl e)
      | Inr to_read_from \<Rightarrow>
          (case platform w of
             None \<Rightarrow> (w, Inl (none_has_no_attribute ''items''))
           | Some p \<Rightarrow>
               (case observe hw to_read_from (components p) of
                  Inl e \<Rightarrow> (w, Inl e)
                | Inr obs \<Rightarrow> (w, Inr (PDict obs)))))"

definition get_components :: "'c worker \<Rightarrow> 'c worker \<times> (pyerr + pyval)" where
  "get_components w =
     (case platform w of
        None \<Rightarrow> (w, Inl (TypeError, quoted ''NoneType'' @ '' object is not iterable''))
      | Some p \<Rightarrow> (w, Inr (PList (map fst (components p)))))"

definition get_routines :: "'c worker \<Rightarrow> 'c worker \<times> (pyerr + pyval)" where
  "get_routines w = (w, Inr (PList (map fst (routines w))))"

subsection \<open>Request dispatch\<close>

text \<open>
  A handler is a bound method called with \<^verbatim>\<open>**kwargs\<close>: it takes the worker as it is and
  the keyword arguments, and gives the worker as it leaves it together with its result
  or the exception it raised. The table is the worker's \<^verbatim>\<open>method_handlers\<close>.
\<close>

type_synonym 'w handler = "'w \<Rightarrow> (pyval \<times> pyval) list \<Rightarrow> 'w \<times> (pyerr + pyval)"

type_synonym 'w handlers = "(string \<times> (string \<times> 'w handler) list) list"

definition with_kwargs ::
  "string list \<Rightarrow> string list \<Rightarrow> ('w \<Rightarrow> (string \<times> pyval) list \<Rightarrow> 'w \<times> (pyerr + pyval)) \<Rightarrow> 'w handler" where
  "with_kwargs required optional body w kwargs =
     (case bind_kwargs required optional kwargs of
        Inl e \<Rightarrow> (w, Inl e)
      | Inr kw \<Rightarrow> body w kw)"

definition method_handlers :: "'c hardware \<Rightarrow> 'c worker handlers" where
  "method_handlers hw =
     [(''add'',
         [(''component'', with_kwargs [''key'', ''type''] [''setup'']
             (\<lambda>w kw. add_component hw w (kwarg kw ''key'') (kwarg kw ''type'') (kwarg kw ''setup''))),
          (''routine'', with_kwargs [''key'', ''interval'', ''executor'', ''operation'', ''kwargs''] []
             (\<lambda>w kw. add_routine hw w (kwarg kw ''key'') (kwarg kw ''interval'') (kwarg kw ''executor'')
                        (kwarg kw ''operation'') (kwarg kw ''kwargs''))),
          (''platform'', with_kwargs [''type''] []
             (\<lambda>w kw. add_platform hw w (kwarg kw ''type'')))]),
      (''remove'',
         [(''component'', with_kwargs [''key''] [] (\<lambda>w kw. remove_component hw w (kwarg kw ''key''))),
          (''routine'', with_kwargs [''key''] [] (\<lambda>w kw. remove_routine w (kwarg kw ''key''))),
          (''platform'', with_kwargs [] [] (\<lambda>w kw. remove_platform w))]),
      (''execute'',
         [(''component'', with_kwargs [''key'', ''operation''] [''kwargs'']
             (\<lambda>w kw. execute_component hw w (kwarg kw ''key'') (kwarg kw ''operation'') (kwarg kw ''kwargs'')))]),
      (''get'',
         [(''observations'', with_kwargs [] [''selected'']
             (\<lambda>w kw. get_observations hw w (kwarg kw ''selected''))),
          (''components'', with_kwargs [] [] (\<lambda>w kw. get_components w)),
          (''routines'', with_kwargs [] [] (\<lambda>w kw. get_routines w))])]"

text \<open>
  \<^verbatim>\<open>_process_request_items\<close>, item by item. The two \<^verbatim>\<open>print\<close> lines come first: the
  method is concatenated to a string (\<^verbatim>\<open>TypeError\<close> unless it is one) and \<^verbatim>\<open>kwargs.items()\<close>
  is called (\<^verbatim>\<open>AttributeError\<close> unless \<^verbatim>\<open>kwargs\<close> is a dictionary). An exception ends the loop
  and leaves the worker as the items before it have changed it.
\<close>

fun process_request_items ::
  "(pyval \<Rightarrow> string) \<Rightarrow> 'w handlers \<Rightarrow> 'w \<Rightarrow> (pyval \<times> (pyval \<times> pyval) list) list \<Rightarrow> pyval list
     \<Rightarrow> 'w \<times> (pyerr + (pyval \<times> (pyval \<times> pyval) list) list)" where
  "process_request_items str handlers w response [] = (w, Inr response)"
| "process_request_items str handlers w response (item # items) =
     (case unpack3 item of
        Inl e \<Rightarrow> (w, Inl e)
      | Inr (method, resource, kwargs) \<Rightarrow>
          (case method of
             PStr m \<Rightarrow>
               (case kwargs of
                  PDict kvs \<Rightarrow>
                    (case map_of handlers m of
                       None \<Rightarrow>
                         (w, Inl (RuntimeError, ''Received method '' @ quoted m
                                    @ '' is invalid. Try: '' @ join '', '' (map fst handlers)))
                     | Some by_resource \<Rightarrow>
                         (case getitem_str_keyed str by_resource resource of
                            Inl e \<Rightarrow> (w, Inl e)
                          | Inr handler \<Rightarrow>
                              (case handler w kvs of
                                 (w', Inl e) \<Rightarrow> (w', Inl e)
                               | (w', Inr result) \<Rightarrow>
                                   process_request_items str handlers w'
                                     (if result \<noteq> PNone
                                      then inner_merge response (PStr m) [(resource, result)]
                                      else response)
                                     items)))
                | _ \<Rightarrow> (w, Inl (AttributeError, ''object has no attribute '' @ quoted ''items'')))
           | _ \<Rightarrow> (w, Inl (TypeError, ''can only concatenate str to str''))))"

text \<open>The exceptions that \<^verbatim>\<open>_on_receive\<close> catches, and \<^verbatim>\<open>e.__class__.__name__\<close>.\<close>

definition caught :: "exc \<Rightarrow> bool" where
  "caught c \<longleftrightarrow> c = RuntimeError \<or> c = RuntimeWarning \<or> c = ValueError"

fun exc_name :: "exc \<Rightarrow> string" where
  "exc_name RuntimeError = ''RuntimeError''"
| "exc_name RuntimeWarning = ''RuntimeWarning''"
| "exc_name ValueError = ''ValueError''"
| "exc_name KeyError = ''KeyError''"
| "exc_name TypeError = ''TypeError''"
| "exc_name AttributeError = ''AttributeError''"
| "exc_name IndexError = ''IndexError''"

text \<open>
  The body of the \<^verbatim>\<open>try\<close> block of \<^verbatim>\<open>_on_receive\<close>: decode the request, then process
  its items. The result is the feedback or the exception raised.
\<close>

definition handle_request ::
  "(pyval \<Rightarrow> string) \<Rightarrow> ('b \<Rightarrow> pyerr + pyval) \<Rightarrow> 'w handlers \<Rightarrow> 'w \<Rightarrow> 'b \<Rightarrow> 'w \<times> (pyerr + pyval)" where
  "handle_request str loads handlers w received =
     (case decode_request loads received of
        Inl e \<Rightarrow> (w, Inl e)
      | Inr received_request \<Rightarrow>
          (case py_iter (kwarg received_request ''items'') of
             Inl e \<Rightarrow> (w, Inl e)
           | Inr items \<Rightarrow>
               (case process_request_items str handlers w [] items of
                  (w', Inl e) \<Rightarrow> (w', Inl e)
                | (w', Inr response) \<Rightarrow>
                    (w', Inr (PDict (map (\<lambda>(method, by_resource). (method, PDict by_resource))
                                         response))))))"

text \<open>
  \<^verbatim>\<open>_on_receive\<close> builds the dictionary \<^verbatim>\<open>feedback_to_send\<close>; the two readings of the clock
  are parameters. \<open>Inl\<close> is an exception that is not caught and leaves \<^verbatim>\<open>_on_receive\<close>;
  then no response exists.
\<close>

definition feedback_to_send ::
  "(pyval \<Rightarrow> string) \<Rightarrow> ('b \<Rightarrow> pyerr + pyval) \<Rightarrow> 'w handlers \<Rightarrow> 'w \<Rightarrow> 'b \<Rightarrow> real \<Rightarrow> real
     \<Rightarrow> 'w \<times> (pyerr + (pyval \<times> pyval) list)" where
  "feedback_to_send str loads handlers w received t_received t_sent =
     (let fts = [(PStr ''received_time'', PFloat t_received), (PStr ''error'', PNone)] in
      case handle_request str loads handlers w received of
        (w', Inr feedback) \<Rightarrow>
          (w', Inr (AList.update (PStr ''sent_time'') (PFloat t_sent)
                      (AList.update (PStr ''feedback'') feedback fts)))
      | (w', Inl (c, msg)) \<Rightarrow>
          if caught c
          then (w', Inr (AList.update (PStr ''sent_time'') (PFloat t_sent)
                           (AList.update (PStr ''error'') (PStr (exc_name c @ '': '' @ msg)) fts)))
          else (w', Inl (c, msg)))"

definition on_receive ::
  "(pyval \<Rightarrow> string) \<Rightarrow> ('b \<Rightarrow> pyerr + pyval) \<Rightarrow> (pyval \<Rightarrow> 'b) \<Rightarrow> 'w handlers \<Rightarrow> 'w \<Rightarrow> 'b
     \<Rightarrow> real \<Rightarrow> real \<Rightarrow> 'w \<times> (pyerr + 'b)" where
  "on_receive str loads dumps handlers w received t_received t_sent =
     (case feedback_to_send str loads handlers w received t_received t_sent of
        (w', Inl e) \<Rightarrow> (w', Inl e)
      | (w', Inr fts) \<Rightarrow> (w', Inr (encode_transaction dumps fts)))"

text \<open>The worker's own \<^verbatim>\<open>_on_receive\<close>: the table is its \<^verbatim>\<open>method_handlers\<close>.\<close>

definition worker_on_receive ::
  "'c hardware \<Rightarrow> ('b \<Rightarrow> pyerr + pyval) \<Rightarrow> (pyval \<Rightarrow> 'b) \<Rightarrow> 'c worker \<Rightarrow> 'b \<Rightarrow> real \<Rightarrow> real
     \<Rightarrow> 'c worker \<times> (pyerr + 'b)" where
  "worker_on_receive hw loads dumps w received t_received t_sent =
     on_receive (to_str hw) loads dumps (method_handlers hw) w received t_received t_sent"

text \<open>A field of the response is populated when it is present and not \<^verbatim>\<open>None\<close>.\<close>

definition populated :: "(pyval \<times> pyval) list \<Rightarrow> string \<Rightarrow> bool" where
  "populated fts field \<longleftrightarrow>
     (case map_of fts (PStr field) of None \<Rightarrow> False | Some v \<Rightarrow> v \<noteq> PNone)"

text \<open>
  Instances for evaluation: a serializer that is the identity on values, a hardware
  registry without platform types, and a worker that has just been constructed.
\<close>

definition plain_loads :: "pyval \<Rightarrow> pyerr + pyval" where
  "plain_loads b = Inr b"

definition plain_dumps :: "pyval \<Rightarrow> pyval" where
  "plain_dumps v = v"

definition no_hardware :: "unit hardware" where
  "no_hardware = \<lparr>platform_types = [], invoke = (\<lambda>c operation kwargs. Inr c),
     has_read = (\<lambda>c. False), read_component = (\<lambda>c. Inr PNone), cleanup = (\<lambda>c. Inr ()),
     to_str = (\<lambda>v. [])\<rparr>"

definition new_worker :: "unit worker" where
  "new_worker = \<lparr>platform = None, routines = []\<rparr>"

text \<open>The request envelope around a list of items, as \<^verbatim>\<open>ClientABC.send_request\<close> builds it.\<close>

definition request_of :: "real \<Rightarrow> pyval list \<Rightarrow> pyval" where
  "request_of t items = PDict [(PStr ''sent_time'', PFloat t), (PStr ''items'', PList items)]"

section \<open>Gate network (\<^verbatim>\<open>gatenetwork.py\<close>)\<close>

text \<open>
  A \<^verbatim>\<open>GateNetwork\<close> is a dictionary from tags to gates, and a \<^verbatim>\<open>Gate\<close> is a set (of the tags
  of its children) that carries a procedure. The model keeps the sets in \<open>graph\<close>, on
  which the functions of \<^verbatim>\<open>_graph.py\<close> work, and under the same tags what \<^verbatim>\<open>Gate.run\<close> does
  for each gate in \<open>procedures\<close>: a function from the feed to the result of the procedure
  or the exception that the call (or the request sent after it) raises. A conditional
  edge stores the path, the evaluator and the target; an evaluator gives the truth value
  of its result or raises.
\<close>

type_synonym evaluator = "pyval \<Rightarrow> pyval \<Rightarrow> pyerr + bool"

record 'k gatenetwork =
  graph :: "'k graph"
  procedures :: "('k \<times> (pyval \<Rightarrow> pyerr + pyval)) list"
  conditional_edges :: "(('k \<times> 'k) \<times> (string \<times> evaluator \<times> pyval)) list"
  max_epochs :: "int option"

definition GateNetwork :: "'k gatenetwork" where
  "GateNetwork = \<lparr>graph = [], procedures = [], conditional_edges = [], max_epochs = None\<rparr>"

definition set_max_epochs :: "'k gatenetwork \<Rightarrow> int \<Rightarrow> pyerr + 'k gatenetwork" where
  "set_max_epochs net n =
     (if n < 1 then Inl (ValueError, ''The max epochs can'' @ [CHR 0x27] @ ''t be less than 1.'')
      else Inr (net\<lparr>max_epochs := Some n\<rparr>))"

definition add_gate :: "'k gatenetwork \<Rightarrow> 'k \<Rightarrow> (pyval \<Rightarrow> pyerr + pyval) \<Rightarrow> 'k gatenetwork" where
  "add_gate net tag procedure =
     net\<lparr>graph := add_node (graph net) tag None,
         procedures := AList.update tag procedure (procedures net)\<rparr>"

definition add_edge_net :: "'k gatenetwork \<Rightarrow> 'k \<Rightarrow> 'k \<Rightarrow> pyerr + 'k gatenetwork" where
  "add_edge_net net from_tag to_tag =
     (case add_edge (graph net) from_tag to_tag of
        Inl e \<Rightarrow> Inl e
      | Inr g \<Rightarrow> Inr (net\<lparr>graph := g\<rparr>))"

text \<open>
  \<^verbatim>\<open>add_conditional_edge\<close> registers the condition and adds the edge; with a fallback tag
  it calls itself once more, for the edge to the fallback, with the negated evaluator and
  no further fallback.
\<close>

definition negated :: "evaluator \<Rightarrow> evaluator" where
  "negated evaluator a b = (case evaluator a b of Inl e \<Rightarrow> Inl e | Inr r \<Rightarrow> Inr (\<not> r))"

definition add_conditional_edge_plain ::
  "'k gatenetwork \<Rightarrow> 'k \<Rightarrow> 'k \<Rightarrow> pyval \<Rightarrow> string \<Rightarrow> evaluator \<Rightarrow> pyerr + 'k gatenetwork" where
  "add_conditional_edge_plain net from_tag to_tag target path evaluator =
     add_edge_net
       (net\<lparr>conditional_edges :=
              AList.update (from_tag, to_tag) (path, evaluator, target) (conditional_edges net)\<rparr>)
       from_tag to_tag"

definition add_conditional_edge ::
  "'k gatenetwork \<Rightarrow> 'k \<Rightarrow> 'k \<Rightarrow> pyval \<Rightarrow> string \<Rightarrow> evaluator \<Rightarrow> 'k option
     \<Rightarrow> pyerr + 'k gatenetwork" where
  "add_conditional_edge net from_tag to_tag target path evaluator fallback_tag =
     (case add_conditional_edge_plain net from_tag to_tag target path evaluator of
        Inl e \<Rightarrow> Inl e
      | Inr net' \<Rightarrow>
          (case fallback_tag of
             None \<Rightarrow> Inr net'
           | Some fallback \<Rightarrow>
               add_conditional_edge_plain net' from_tag fallback target path (negated evaluator)))"

text \<open>\<^verbatim>\<open>self[tag].run(feed)\<close>: \<^verbatim>\<open>KeyError\<close> when the tag is no gate of the network.\<close>

definition run_gate :: "'k gatenetwork \<Rightarrow> 'k \<Rightarrow> pyval \<Rightarrow> pyerr + pyval" where
  "run_gate net tag feed =
     (case map_of (graph net) tag of
        None \<Rightarrow> Inl (KeyError, [])
      | Some gate \<Rightarrow>
          (case map_of (procedures net) tag of
             None \<Rightarrow> Inl (KeyError, [])
           | Some procedure \<Rightarrow> procedure feed))"

subsection \<open>The state of a resolution\<close>

text \<open>
  The four dictionaries of \<^verbatim>\<open>_resolve_all\<close>. \<open>invoked\<close> is not in the code: it records, in
  order, the tags of the gates that have been run.
\<close>

record 'k generation =
  current_generation :: "('k \<times> pyval) list"
  unsatisfied :: "('k \<times> ('k \<times> pyval) list) list"
  resolved :: "('k \<times> pyval) list"
  to_be_evaluated :: "('k \<times> (pyval \<times> pyval) list) list"
  invoked :: "'k list"

text \<open>
  \<^verbatim>\<open>d.update(other)\<close> for any value: a dictionary is merged in; anything else is iterated
  and must yield sequences of length two with a hashable first element.
\<close>

fun pairs_of :: "pyval list \<Rightarrow> pyerr + (pyval \<times> pyval) list" where
  "pairs_of [] = Inr []"
| "pairs_of (x # xs) =
     (case py_iter x of
        Inl e \<Rightarrow> Inl (TypeError, ''cannot convert dictionary update sequence element to a sequence'')
      | Inr elems \<Rightarrow>
          (case elems of
             [k, v] \<Rightarrow>
               if \<not> hashable k then Inl (TypeError, ''unhashable type'')
               else (case pairs_of xs of Inl e \<Rightarrow> Inl e | Inr ps \<Rightarrow> Inr ((k, v) # ps))
           | _ \<Rightarrow> Inl (ValueError, ''dictionary update sequence element has the wrong length; 2 is required'')))"

definition py_dict_update :: "(pyval \<times> pyval) list \<Rightarrow> pyval \<Rightarrow> pyerr + (pyval \<times> pyval) list" where
  "py_dict_update d other =
     (case other of
        PDict kvs \<Rightarrow> Inr (dict_update d kvs)
      | _ \<Rightarrow>
          (case py_iter other of
             Inl e \<Rightarrow> Inl e
           | Inr xs \<Rightarrow>
               (case pairs_of xs of Inl e \<Rightarrow> Inl e | Inr ps \<Rightarrow> Inr (dict_update d ps))))"

text \<open>
  The loop over \<^verbatim>\<open>unconditional_parents\<close> of an eligible child: each parent leaves the
  current generation, and its result (an empty dictionary for \<^verbatim>\<open>None\<close>) is merged into
  \<^verbatim>\<open>super_result\<close>.
\<close>

fun merge_parents ::
  "('k \<times> pyval) list \<Rightarrow> 'k list \<Rightarrow> ('k \<times> pyval) list \<times> (pyval \<times> pyval) list
     \<Rightarrow> pyerr + ('k \<times> pyval) list \<times> (pyval \<times> pyval) list" where
  "merge_parents descendants [] (current, super_result) = Inr (current, super_result)"
| "merge_parents descendants (parent_tag # parents) (current, super_result) =
     (case map_of descendants parent_tag of
        None \<Rightarrow> Inl (KeyError, [])
      | Some r \<Rightarrow>
          (case py_dict_update super_result (if r \<noteq> PNone then r else PDict []) of
             Inl e \<Rightarrow> Inl e
           | Inr super_result' \<Rightarrow>
               merge_parents descendants parents (AList.delete parent_tag current, super_result')))"

text \<open>
  The second half of the loop body for one child, once \<^verbatim>\<open>unconditional_parents\<close> is known:
  the child's entry is popped from \<^verbatim>\<open>unsatisfied\<close> and joined with the snapshot of the
  generation; the child is either scheduled with the merged results of its parents or
  put back into \<^verbatim>\<open>unsatisfied\<close> with the current result.
\<close>

definition schedule_child ::
  "('k \<times> pyval) list \<Rightarrow> 'k \<Rightarrow> pyval \<Rightarrow> 'k \<Rightarrow> 'k list \<Rightarrow> 'k generation \<Rightarrow> pyerr + 'k generation" where
  "schedule_child current_generation_copy current_tag current_result child_tag
       unconditional_parents st =
     (let descendants = dict_update (case map_of (unsatisfied st) child_tag of
                                       None \<Rightarrow> [] | Some d \<Rightarrow> d)
                                    current_generation_copy;
          st1 = st\<lparr>unsatisfied := AList.delete child_tag (unsatisfied st)\<rparr>
      in if set unconditional_parents \<subseteq> fst ` set descendants
         then (case merge_parents descendants unconditional_parents (current_generation st1, []) of
                 Inl e \<Rightarrow> Inl e
               | Inr (current, super_result) \<Rightarrow>
                   Inr (st1\<lparr>current_generation := current,
                            to_be_evaluated :=
                              inner_merge (to_be_evaluated st1) child_tag super_result\<rparr>))
         else Inr (st1\<lparr>unsatisfied :=
                          inner_merge (unsatisfied st1) child_tag [(current_tag, current_result)]\<rparr>))"

text \<open>
  The loop body for one child. On a conditional edge the child is skipped when the
  current result is no dictionary or the evaluator says no; otherwise the current gate
  is the only parent required. On an unconditional edge the parents required are the
  in-neighbours of the child that reach it over an unconditional edge.
\<close>

definition visit_child ::
  "'k gatenetwork \<Rightarrow> ('k \<times> pyval) list \<Rightarrow> 'k \<Rightarrow> pyval \<Rightarrow> 'k \<Rightarrow> 'k generation
     \<Rightarrow> pyerr + 'k generation" where
  "visit_child net current_generation_copy current_tag current_result child_tag st =
     (case map_of (conditional_edges net) (current_tag, child_tag) of
        Some (location, evaluator, target) \<Rightarrow>
          (case current_result of
             PDict kvs \<Rightarrow>
               (case get_nested location current_result CHR ''.'' of
                  Inl e \<Rightarrow> Inl e
                | Inr v \<Rightarrow>
                    (case evaluator v target of
                       Inl e \<Rightarrow> Inl e
                     | Inr holds \<Rightarrow>
                         if \<not> holds then Inr st
                         else schedule_child current_generation_copy current_tag current_result
                                child_tag [current_tag] st))
           | _ \<Rightarrow> Inr st)
      | None \<Rightarrow>
          schedule_child current_generation_copy current_tag current_result child_tag
            (filter (\<lambda>parent_tag. map_of (conditional_edges net) (parent_tag, child_tag) = None)
                    (get_in_neighbors (graph net) child_tag))
            st)"

fun visit_children ::
  "'k gatenetwork \<Rightarrow> ('k \<times> pyval) list \<Rightarrow> 'k \<Rightarrow> pyval \<Rightarrow> 'k list \<Rightarrow> 'k generation
     \<Rightarrow> pyerr + 'k generation" where
  "visit_children net current_generation_copy current_tag current_result [] st = Inr st"
| "visit_children net current_generation_copy current_tag current_result (child_tag # children) st =
     (case visit_child net current_generation_copy current_tag current_result child_tag st of
        Inl e \<Rightarrow> Inl e
      | Inr st' \<Rightarrow>
          visit_children net current_generation_copy current_tag current_result children st')"

text \<open>
  The loop body for one tag of the snapshot: a gate without children moves from the
  current generation to \<^verbatim>\<open>resolved\<close>; the children of any other gate are visited.
\<close>

definition visit_tag ::
  "'k gatenetwork \<Rightarrow> ('k \<times> pyval) list \<Rightarrow> 'k \<Rightarrow> pyval \<Rightarrow> 'k generation \<Rightarrow> pyerr + 'k generation" where
  "visit_tag net current_generation_copy current_tag current_result st =
     (case map_of (graph net) current_tag of
        None \<Rightarrow> Inl (KeyError, [])
      | Some current_gate \<Rightarrow>
          if current_gate = []
          then (case map_of (current_generation st) current_tag of
                  None \<Rightarrow> Inl (KeyError, [])
                | Some r \<Rightarrow>
                    Inr (st\<lparr>resolved := AList.update current_tag r (resolved st),
                            current_generation := AList.delete current_tag (current_generation st)\<rparr>))
          else visit_children net current_generation_copy current_tag current_result current_gate st)"

fun visit_generation ::
  "'k gatenetwork \<Rightarrow> ('k \<times> pyval) list \<Rightarrow> ('k \<times> pyval) list \<Rightarrow> 'k generation
     \<Rightarrow> pyerr + 'k generation" where
  "visit_generation net current_generation_copy [] st = Inr st"
| "visit_generation net current_generation_copy ((current_tag, current_result) # rest) st =
     (case visit_tag net current_generation_copy current_tag current_result st of
        Inl e \<Rightarrow> Inl e
      | Inr st' \<Rightarrow> visit_generation net current_generation_copy rest st')"

text \<open>The dictionary comprehension that runs every scheduled gate on its feed.\<close>

fun run_scheduled ::
  "'k gatenetwork \<Rightarrow> ('k \<times> (pyval \<times> pyval) list) list \<Rightarrow> pyerr + ('k \<times> pyval) list" where
  "run_scheduled net [] = Inr []"
| "run_scheduled net ((next_tag, next_feed) # rest) =
     (case run_gate net next_tag (PDict next_feed) of
        Inl e \<Rightarrow> Inl e
      | Inr r \<Rightarrow>
          (case run_scheduled net rest of
             Inl e \<Rightarrow> Inl e
           | Inr rs \<Rightarrow> Inr ((next_tag, r) # rs)))"

text \<open>One pass of the \<^verbatim>\<open>while\<close> loop, up to the increment of the epoch count.\<close>

definition epoch :: "'k gatenetwork \<Rightarrow> 'k generation \<Rightarrow> pyerr + 'k generation" where
  "epoch net st =
     (let current_generation_copy = current_generation st in
      case visit_generation net current_generation_copy current_generation_copy
             (st\<lparr>to_be_evaluated := []\<rparr>) of
        Inl e \<Rightarrow> Inl e
      | Inr st1 \<Rightarrow>
          (case run_scheduled net (to_be_evaluated st1) of
             Inl e \<Rightarrow> Inl e
           | Inr results \<Rightarrow>
               Inr (st1\<lparr>current_generation := dict_update (current_generation st1) results,
                        invoked := invoked st1 @ map fst (to_be_evaluated st1)\<rparr>)))"

text \<open>
  The test that ends the loop, made after the epoch count has been incremented: the
  generation is empty or the count equals the ceiling.
\<close>

definition finished :: "'k gatenetwork \<Rightarrow> 'k generation \<Rightarrow> int \<Rightarrow> bool" where
  "finished net st epoch_count \<longleftrightarrow>
     current_generation st = [] \<or> Some epoch_count = max_epochs net"

text \<open>
  The \<^verbatim>\<open>while True\<close> loop. It need not end, so the result is an option: \<open>None\<close> when the
  loop runs forever, otherwise the exception that left it or the state at the
  \<^verbatim>\<open>return\<close> (whose \<open>resolved\<close> is what is returned) with the final \<^verbatim>\<open>epoch_count\<close>.
\<close>

partial_function (option) resolve_loop ::
  "'k gatenetwork \<Rightarrow> int \<Rightarrow> 'k generation \<Rightarrow> (pyerr + 'k generation \<times> int) option" where
  "resolve_loop net epoch_count st =
     (case epoch net st of
        Inl e \<Rightarrow> Some (Inl e)
      | Inr st' \<Rightarrow>
          if finished net st' (epoch_count + 1) then Some (Inr (st', epoch_count + 1))
          else resolve_loop net (epoch_count + 1) st')"

text \<open>
  \<^verbatim>\<open>_resolve_all\<close> runs the starting gate on the initial feed and enters the loop with
  its result as the first generation.
\<close>

definition start_state :: "'k \<Rightarrow> pyval \<Rightarrow> 'k generation" where
  "start_state starting_tag r =
     \<lparr>current_generation = [(starting_tag, r)], unsatisfied = [], resolved = [],
      to_be_evaluated = [], invoked = [starting_tag]\<rparr>"

definition resolve_all ::
  "'k gatenetwork \<Rightarrow> 'k \<Rightarrow> pyval \<Rightarrow> (pyerr + 'k generation \<times> int) option" where
  "resolve_all net starting_tag initial_feed =
     (case run_gate net starting_tag initial_feed of
        Inl e \<Rightarrow> Some (Inl e)
      | Inr r \<Rightarrow>
          resolve_loop net 0 (start_state starting_tag r))"

text \<open>The state after a number of epochs, for statements about the course of a run.\<close>

fun epochs :: "'k gatenetwork \<Rightarrow> nat \<Rightarrow> 'k generation \<Rightarrow> pyerr + 'k generation" where
  "epochs net 0 st = Inr st"
| "epochs net (Suc n) st =
     (case epoch net st of Inl e \<Rightarrow> Inl e | Inr st' \<Rightarrow> epochs net n st')"

subsection \<open>Notions used to state the properties\<close>

text \<open>
  Starting from \<open>st0\<close> with the epoch count \<open>e\<close>, the count \<open>n\<close> is the first one at which
  the test that ends the loop holds, and \<open>st\<close> is the state then.
\<close>

definition first_finished ::
  "'k gatenetwork \<Rightarrow> int \<Rightarrow> 'k generation \<Rightarrow> 'k generation \<Rightarrow> int \<Rightarrow> bool" where
  "first_finished net e st0 st n \<longleftrightarrow>
     (\<exists>k. n = e + int k + 1 \<and> epochs net (Suc k) st0 = Inr st \<and> finished net st n
        \<and> (\<forall>j sj. 1 \<le> j \<and> j \<le> k \<and> epochs net j st0 = Inr sj
              \<longrightarrow> \<not> finished net sj (e + int j)))"

text \<open>
  A result that can be propagated: \<^verbatim>\<open>None\<close> or a dictionary. What a child with the single
  required parent is fed is the \<^verbatim>\<open>super_result\<close> made of the parent's result alone: the
  empty dictionary updated with it.
\<close>

definition mapping_or_none :: "pyval \<Rightarrow> bool" where
  "mapping_or_none r \<longleftrightarrow> (case r of PNone \<Rightarrow> True | PDict d \<Rightarrow> True | _ \<Rightarrow> False)"

definition super_result_of :: "pyval \<Rightarrow> (pyval \<times> pyval) list" where
  "super_result_of r = (case r of PDict d \<Rightarrow> dict_update [] d | _ \<Rightarrow> [])"

text \<open>
  Instances for evaluation: a procedure that returns its feed, one that counts the keys
  of its feed, an evaluator that compares for equality (the default of
  \<^verbatim>\<open>add_conditional_edge\<close>), and a procedure that must not be called.
\<close>

definition echo :: "pyval \<Rightarrow> pyerr + pyval" where
  "echo feed = Inr feed"

definition count_keys :: "pyval \<Rightarrow> pyerr + pyval" where
  "count_keys feed =
     (case feed of
        PDict d \<Rightarrow> Inr (PDict [(PStr ''count'', PInt (int (length d)))])
      | _ \<Rightarrow> Inr (PDict [(PStr ''count'', PInt 0)]))"

definition equals :: evaluator where
  "equals a b = Inr (a = b)"

definition never_called :: "pyval \<Rightarrow> pyerr + pyval" where
  "never_called feed = Inl (RuntimeError, ''called'')"

text \<open>
  A network on which a run never ends unless a ceiling is set: gate \<^verbatim>\<open>A\<close> returns its
  feed, and its only edge, to \<^verbatim>\<open>B\<close>, is conditional on \<^verbatim>\<open>mode\<close> being \<^verbatim>\<open>go\<close>. Fed with another
  mode, \<^verbatim>\<open>A\<close> is never taken out of the current generation.
\<close>

definition stuck_network :: "string gatenetwork" where
  "stuck_network =
     \<lparr>graph = [(''A'', [''B'']), (''B'', [])],
      procedures = [(''A'', echo), (''B'', never_called)],
      conditional_edges = [((''A'', ''B''), (''mode'', equals, PStr ''go''))],
      max_epochs = None\<rparr>"

definition stop_feed :: pyval where
  "stop_feed = PDict [(PStr ''mode'', PStr ''stop'')]"

section \<open>Properties of the graph primitives\<close>

lemma remove_node_not_node: "k \<notin> fst ` set (remove_node G k)"
  by (auto simp: remove_node_def image_iff AList.delete_eq)

lemma remove_node_no_edge:
  assumes "k \<in> fst ` set G" and "(n, s) \<in> set (remove_node G k)"
  shows "k \<notin> set s"
  using assms by (auto simp: remove_node_def split: if_splits)

text \<open>
  C8, as stated: after \<^verbatim>\<open>remove_node(G, k)\<close> the key is no node and no successor set
  contains it. This fails for a key that is not a node of \<open>G\<close> but is the target of an
  edge: the guard \<^verbatim>\<open>if key in graph\<close> skips the pruning, and the edge stays. In the graph
  \<^verbatim>\<open>{"a": {"k"}}\<close> the node \<^verbatim>\<open>a\<close> remains after \<^verbatim>\<open>remove_node(G, "k")\<close>, and its successor set
  still contains \<^verbatim>\<open>k\<close>.
\<close>

theorem remove_node_counterexample:
  "(''a'', [''k'']) \<in> set (remove_node [(''a'', [''k''])] ''k'') \<and> ''k'' \<in> set [''k'']"
  by (simp add: remove_node_def)

text \<open>
  C8, amended: after \<^verbatim>\<open>remove_node(G, k)\<close> the key \<open>k\<close> is never a node of \<open>G\<close>; when
  \<open>k\<close> was a node of \<open>G\<close>, no successor set of a remaining node contains \<open>k\<close>; when it
  was not, the graph is returned as it was.
\<close>

theorem remove_node_strips:
  "k \<notin> fst ` set (remove_node G k)
   \<and> (k \<in> fst ` set G \<longrightarrow> (\<forall>(n, s) \<in> set (remove_node G k). k \<notin> set s))
   \<and> (k \<notin> fst ` set G \<longrightarrow> remove_node G k = G)"
proof (intro conjI impI)
  show "k \<notin> fst ` set (remove_node G k)"
    by (rule remove_node_not_node)
next
  assume "k \<in> fst ` set G"
  then show "\<forall>(n, s) \<in> set (remove_node G k). k \<notin> set s"
    using remove_node_no_edge [of k G] by blast
next
  assume "k \<notin> fst ` set G"
  then show "remove_node G k = G"
    by (simp add: remove_node_def)
qed

theorem remove_node_strips_witness:
  "''b'' \<in> fst ` set [(''a'', [''b'', ''c'']), (''b'', [''c'']), (''c'', [''b''])]
   \<and> remove_node [(''a'', [''b'', ''c'']), (''b'', [''c'']), (''c'', [''b''])] ''b''
       = [(''a'', [''c'']), (''c'', [])]
   \<and> ''b'' \<notin> set [''c''] \<and> ''b'' \<notin> set []"
  using remove_node_strips [of "''b''" "[(''a'', [''b'', ''c'']), (''b'', [''c'']), (''c'', [''b''])]"]
  by (simp add: remove_node_def)

text \<open>
  C10: when \<open>a\<close> is a node of \<open>G\<close> and \<open>b\<close> is a different key that is no node of \<open>G\<close>,
  \<^verbatim>\<open>add_edge(G, a, b)\<close> returns without error; afterwards \<open>b\<close> is a successor of \<open>a\<close>
  (and \<open>a\<close> an in-neighbour of \<open>b\<close>), the nodes are the same as before, so \<open>b\<close> is still
  no node, and \<^verbatim>\<open>remove_node(G, b)\<close> leaves the graph, and with it the edge, as it is.
\<close>

theorem add_edge_dangling:
  assumes "a \<in> fst ` set G" and "b \<noteq> a" and "b \<notin> fst ` set G"
  shows "\<exists>G' s. add_edge G a b = Inr G'
           \<and> get_out_neighbors G' a = Inr s \<and> b \<in> set s
           \<and> a \<in> set (get_in_neighbors G' b)
           \<and> fst ` set G' = fst ` set G \<and> b \<notin> fst ` set G'
           \<and> remove_node G' b = G'"
proof -
  from assms(1) obtain s where s: "map_of G a = Some s"
    by (metis map_of_eq_None_iff not_Some_eq)
  define G' where "G' = AList.update a (set_add b s) G"
  have ret: "add_edge G a b = Inr G'"
    using assms(2) s by (auto simp: add_edge_def G'_def)
  have look: "map_of G' a = Some (set_add b s)"
    by (simp add: G'_def update_conv')
  have mem: "b \<in> set (set_add b s)"
    by (simp add: set_add_def)
  have nodes: "fst ` set G' = fst ` set G"
    using assms(1) by (auto simp: G'_def dom_update)
  from look have "(a, set_add b s) \<in> set G'"
    by (rule map_of_SomeD)
  with mem have inn: "a \<in> set (get_in_neighbors G' b)"
    by (force simp: get_in_neighbors_def)
  have "remove_node G' b = G'"
    using assms(3) nodes by (simp add: remove_node_def)
  with ret look mem nodes inn assms(3) show ?thesis
    by (simp add: get_out_neighbors_def)
qed

theorem add_edge_dangling_witness:
  "add_edge [(''a'', [])] ''a'' ''b'' = Inr [(''a'', [''b''])]
   \<and> remove_node [(''a'', [''b''])] ''b'' = [(''a'', [''b''])]"
  using add_edge_dangling [of "''a''" "[(''a'', [])]" "''b''"]
  by (simp add: add_edge_def set_add_def remove_node_def)

section \<open>Properties of the dotted-path lookup\<close>

text \<open>
  C9 says that \<^verbatim>\<open>get_nested\<close> never raises and answers \<^verbatim>\<open>None\<close> for an absent segment.
  On the mapping \<^verbatim>\<open>{"a": 5}\<close> and the path \<^verbatim>\<open>"a.b"\<close> the segment \<^verbatim>\<open>b\<close> is absent, and the
  lookup raises \<^verbatim>\<open>TypeError\<close>: the second step evaluates \<^verbatim>\<open>"b" not in 5\<close>.
\<close>

theorem get_nested_raises:
  "get_nested ''a.b'' (PDict [(PStr ''a'', PInt 5)]) CHR ''.''
     = Inl (TypeError, ''argument is not iterable'')"
  by (simp add: get_nested_def)

text \<open>
  What the lookup does guarantee: a segment missing from a dictionary, and any segment
  below a \<^verbatim>\<open>None\<close>, give \<^verbatim>\<open>None\<close>.
\<close>

lemma get_nested_util_absent:
  "PStr key \<notin> fst ` set kvs \<Longrightarrow> get_nested_util (key # route) (PDict kvs) = Inr PNone"
  by simp

lemma get_nested_util_none: "route \<noteq> [] \<Longrightarrow> get_nested_util route PNone = Inr PNone"
  by (cases route) simp_all

section \<open>Properties of the transport protocol\<close>

lemma isinstance_TFloat: "isinstance v TFloat \<longleftrightarrow> (\<exists>x. v = PFloat x)"
  by (cases v) simp_all

lemma isinstance_TList: "isinstance v TList \<longleftrightarrow> (\<exists>xs. v = PList xs)"
  by (cases v) simp_all

lemma isinstance_TDict: "isinstance v TDict \<longleftrightarrow> (\<exists>d. v = PDict d)"
  by (cases v) simp_all

lemma isinstance_TStr: "isinstance v TStr \<longleftrightarrow> (\<exists>s. v = PStr s)"
  by (cases v) simp_all

text \<open>The well-formed records of the two envelopes, spelled out.\<close>

lemma map_fst_eq_two:
  assumes "map fst r = [a, b]"
  obtains x y where "r = [(a, x), (b, y)]"
proof -
  from assms obtain p q where "r = [p, q]" and "fst p = a" and "fst q = b"
    by (auto simp: map_eq_Cons_conv)
  then have "r = [(a, snd p), (b, snd q)]"
    by (simp add: prod_eq_iff)
  then show thesis by (rule that)
qed

lemma well_formed_RequestE:
  assumes "well_formed Request r"
  obtains t xs where "r = [(''sent_time'', PFloat t), (''items'', PList xs)]"
proof -
  from assms have keys: "map fst r = [''sent_time'', ''items'']"
    by (simp add: well_formed_def Request_def)
  then obtain v1 v2 where r: "r = [(''sent_time'', v1), (''items'', v2)]"
    by (rule map_fst_eq_two)
  from assms have "isinstance v1 TFloat" and "isinstance v2 TList"
    unfolding r by (simp_all add: well_formed_def Request_def)
  then obtain t xs where "v1 = PFloat t" and "v2 = PList xs"
    unfolding isinstance_TFloat isinstance_TList by blast
  with r show thesis by (simp add: that)
qed

lemma map_fst_eq_four:
  assumes "map fst r = [a, b, c, d]"
  obtains w x y z where "r = [(a, w), (b, x), (c, y), (d, z)]"
proof -
  from assms obtain p q s u where "r = [p, q, s, u]"
    and "fst p = a" and "fst q = b" and "fst s = c" and "fst u = d"
    by (auto simp: map_eq_Cons_conv)
  then have "r = [(a, snd p), (b, snd q), (c, snd s), (d, snd u)]"
    by (simp add: prod_eq_iff)
  then show thesis by (rule that)
qed

lemma well_formed_ResponseE:
  assumes "well_formed Response r"
  obtains t1 t2 fb er where
    "r = [(''received_time'', PFloat t1), (''sent_time'', PFloat t2),
          (''feedback'', fb), (''error'', er)]"
    and "fb = PNone \<or> (\<exists>d. fb = PDict d)" and "er = PNone \<or> (\<exists>s. er = PStr s)"
proof -
  from assms have keys: "map fst r = [''received_time'', ''sent_time'', ''feedback'', ''error'']"
    by (simp add: well_formed_def Response_def)
  then obtain v1 v2 fb er where
    r: "r = [(''received_time'', v1), (''sent_time'', v2), (''feedback'', fb), (''error'', er)]"
    by (rule map_fst_eq_four)
  from assms have "isinstance v1 TFloat" and "isinstance v2 TFloat"
    and "isinstance fb TDict \<or> fb = PNone" and "isinstance er TStr \<or> er = PNone"
    unfolding r by (simp_all add: well_formed_def Response_def)
  then obtain t1 t2 where "v1 = PFloat t1" and "v2 = PFloat t2"
    and "fb = PNone \<or> (\<exists>d. fb = PDict d)" and "er = PNone \<or> (\<exists>s. er = PStr s)"
    unfolding isinstance_TFloat isinstance_TDict isinstance_TStr by blast
  with r show thesis by (simp add: that)
qed

lemma decode_well_formed_Request:
  assumes "loads b = Inr (PDict (as_mapping r))" and "well_formed Request r"
  shows "decode_transaction loads Request b = Inr r"
proof -
  from assms(2) obtain t xs where r: "r = [(''sent_time'', PFloat t), (''items'', PList xs)]"
    by (rule well_formed_RequestE)
  have "loads b = Inr (PDict [(PStr ''sent_time'', PFloat t), (PStr ''items'', PList xs)])"
    using assms(1) by (simp add: r as_mapping_def)
  then show ?thesis
    by (simp add: r decode_transaction_def get_unsatisfied_fields_def Request_def
          dataclass_init_def)
qed

lemma decode_well_formed_Response:
  assumes "loads b = Inr (PDict (as_mapping r))" and "well_formed Response r"
  shows "decode_transaction loads Response b = Inr r"
proof -
  from assms(2) obtain t1 t2 fb er where
    r: "r = [(''received_time'', PFloat t1), (''sent_time'', PFloat t2),
             (''feedback'', fb), (''error'', er)]"
    and fb: "fb = PNone \<or> (\<exists>d. fb = PDict d)" and er: "er = PNone \<or> (\<exists>s. er = PStr s)"
    by (rule well_formed_ResponseE)
  have l: "loads b = Inr (PDict [(PStr ''received_time'', PFloat t1), (PStr ''sent_time'', PFloat t2),
             (PStr ''feedback'', fb), (PStr ''error'', er)])"
    using assms(1) by (simp add: r as_mapping_def)
  have u: "get_unsatisfied_fields Response (PDict [(PStr ''received_time'', PFloat t1),
             (PStr ''sent_time'', PFloat t2), (PStr ''feedback'', fb), (PStr ''error'', er)]) = Inr []"
    using fb er
    by (auto simp add: get_unsatisfied_fields_def Response_def getattr_cls_def)
  have i: "dataclass_init Response (PDict [(PStr ''received_time'', PFloat t1),
             (PStr ''sent_time'', PFloat t2), (PStr ''feedback'', fb), (PStr ''error'', er)]) = Inr r"
    by (simp add: r dataclass_init_def Response_def)
  show ?thesis
    by (simp add: decode_transaction_def l u i)
qed

text \<open>
  C2: for a well-formed \<^verbatim>\<open>Request\<close> and for a well-formed \<^verbatim>\<open>Response\<close> record \<open>r\<close>, decoding
  the encoding of \<open>r\<close> gives \<open>r\<close> back. The serializer is the external library; that it is
  lossless on the payload, as the specification says of it, is the assumption.
\<close>

theorem decode_encode_roundtrip:
  assumes "loads (encode_transaction dumps (as_mapping r)) = Inr (PDict (as_mapping r))"
  shows "(well_formed Request r \<longrightarrow>
            decode_request loads (encode_transaction dumps (as_mapping r)) = Inr r)
       \<and> (well_formed Response r \<longrightarrow>
            decode_response loads (encode_transaction dumps (as_mapping r)) = Inr r)"
  unfolding decode_request_def decode_response_def
  using assms
    decode_well_formed_Request [of loads "encode_transaction dumps (as_mapping r)" r]
    decode_well_formed_Response [of loads "encode_transaction dumps (as_mapping r)" r]
  by blast

theorem decode_encode_roundtrip_witness:
  "well_formed Request
     [(''sent_time'', PFloat 1), (''items'', PList [PList [PStr ''get'', PStr ''routines'', PDict []]])]
   \<and> decode_request plain_loads (encode_transaction plain_dumps (as_mapping
        [(''sent_time'', PFloat 1), (''items'', PList [PList [PStr ''get'', PStr ''routines'', PDict []]])]))
      = Inr [(''sent_time'', PFloat 1),
             (''items'', PList [PList [PStr ''get'', PStr ''routines'', PDict []]])]
   \<and> well_formed Response
        [(''received_time'', PFloat 2), (''sent_time'', PFloat 3),
         (''feedback'', PNone), (''error'', PStr ''RuntimeError: no'')]
   \<and> decode_response plain_loads (encode_transaction plain_dumps (as_mapping
        [(''received_time'', PFloat 2), (''sent_time'', PFloat 3),
         (''feedback'', PNone), (''error'', PStr ''RuntimeError: no'')]))
      = Inr [(''received_time'', PFloat 2), (''sent_time'', PFloat 3),
             (''feedback'', PNone), (''error'', PStr ''RuntimeError: no'')]"
proof -
  have wf1: "well_formed Request
     [(''sent_time'', PFloat 1), (''items'', PList [PList [PStr ''get'', PStr ''routines'', PDict []]])]"
    by (simp add: well_formed_def Request_def)
  have wf2: "well_formed Response
        [(''received_time'', PFloat 2), (''sent_time'', PFloat 3),
         (''feedback'', PNone), (''error'', PStr ''RuntimeError: no'')]"
    by (simp add: well_formed_def Response_def)
  have lossless: "plain_loads (encode_transaction plain_dumps m) = Inr (PDict m)" for m
    by (simp add: plain_loads_def plain_dumps_def encode_transaction_def)
  show ?thesis
    using wf1 wf2
      decode_encode_roundtrip [of plain_loads plain_dumps
        "[(''sent_time'', PFloat 1),
          (''items'', PList [PList [PStr ''get'', PStr ''routines'', PDict []]])]", OF lossless]
      decode_encode_roundtrip [of plain_loads plain_dumps
        "[(''received_time'', PFloat 2), (''sent_time'', PFloat 3),
          (''feedback'', PNone), (''error'', PStr ''RuntimeError: no'')]", OF lossless]
    by blast
qed

text \<open>
  The validation of a decoded mapping. For a field that fails its type test the
  comprehension goes on to \<^verbatim>\<open>getattr(datacls, field)\<close>; a field declared without a default
  is no attribute of the class, so this raises \<^verbatim>\<open>AttributeError\<close> at the first such field.
  For the two envelopes the set of unsatisfied fields, when one is returned at all, is
  therefore empty, and the \<^verbatim>\<open>ValueError\<close> that would name the fields is never raised.
\<close>

lemma unsatisfied_Request_empty: "get_unsatisfied_fields Request m = Inr fs \<Longrightarrow> fs = []"
  by (simp add: get_unsatisfied_fields_def Request_def getattr_cls_def
        split: sum.splits if_splits)

lemma unsatisfied_Response_empty: "get_unsatisfied_fields Response m = Inr fs \<Longrightarrow> fs = []"
  by (simp add: get_unsatisfied_fields_def Response_def getattr_cls_def
        split: sum.splits if_splits)

lemma unsatisfied_Request_sent_time:
  assumes "mapping_get m ''sent_time'' = Inr v" and "\<not> isinstance v TFloat"
  shows "get_unsatisfied_fields Request m
           = Inl (AttributeError, ''type object '' @ quoted ''Request''
                    @ '' has no attribute '' @ quoted ''sent_time'')"
  using assms by (simp add: get_unsatisfied_fields_def Request_def getattr_cls_def)

text \<open>
  C3 says that a payload whose mapping lacks a required field fails with a validation
  error that names every such field. For the payload \<^verbatim>\<open>{"items": []}\<close>, which lacks
  \<^verbatim>\<open>sent_time\<close>, \<^verbatim>\<open>decode_request\<close> raises \<^verbatim>\<open>AttributeError\<close> instead; and for the payload
  \<^verbatim>\<open>{}\<close>, which lacks both required fields of a response, \<^verbatim>\<open>decode_response\<close> raises it for
  \<^verbatim>\<open>received_time\<close> alone.
\<close>

theorem decode_missing_field_raises:
  "decode_request plain_loads (PDict [(PStr ''items'', PList [])])
     = Inl (AttributeError,
            ''type object '' @ quoted ''Request'' @ '' has no attribute '' @ quoted ''sent_time'')
   \<and> decode_response plain_loads (PDict [])
     = Inl (AttributeError,
            ''type object '' @ quoted ''Response'' @ '' has no attribute '' @ quoted ''received_time'')"
  by (simp add: decode_request_def decode_response_def decode_transaction_def plain_loads_def
        get_unsatisfied_fields_def Request_def Response_def getattr_cls_def)

section \<open>Properties of the worker\<close>

text \<open>
  C4: whenever \<^verbatim>\<open>_on_receive\<close> produces a response, its \<^verbatim>\<open>error\<close> and its \<^verbatim>\<open>feedback\<close> are
  not both populated. If handling the request succeeded, \<^verbatim>\<open>feedback\<close> holds the result and
  \<^verbatim>\<open>error\<close> is \<^verbatim>\<open>None\<close>; if it raised, the exception is one of those caught, \<^verbatim>\<open>error\<close> holds its
  class and message, and the response has no \<^verbatim>\<open>feedback\<close>. This holds for any table of
  handlers, so in particular for the worker's.
\<close>

theorem response_error_or_feedback:
  assumes "feedback_to_send str loads handlers w received t_received t_sent = (w', Inr fts)"
  shows "\<not> (populated fts ''error'' \<and> populated fts ''feedback'')
    \<and> (case handle_request str loads handlers w received of
          (w1, Inr feedback) \<Rightarrow>
            map_of fts (PStr ''feedback'') = Some feedback
            \<and> map_of fts (PStr ''error'') = Some PNone
        | (w1, Inl (c, msg)) \<Rightarrow>
            caught c
            \<and> map_of fts (PStr ''error'') = Some (PStr (exc_name c @ '': '' @ msg))
            \<and> map_of fts (PStr ''feedback'') = None)"
  using assms
  by (auto simp: feedback_to_send_def populated_def split: prod.splits sum.splits if_splits)

lemma feedback_to_send_get_routines:
  "feedback_to_send (to_str no_hardware) plain_loads (method_handlers no_hardware) new_worker
     (request_of 1 [PList [PStr ''get'', PStr ''routines'', PDict []]]) 2 3
   = (new_worker,
      Inr [(PStr ''received_time'', PFloat 2), (PStr ''error'', PNone),
           (PStr ''feedback'', PDict [(PStr ''get'', PDict [(PStr ''routines'', PList [])])]),
           (PStr ''sent_time'', PFloat 3)])"
  by (simp add: feedback_to_send_def handle_request_def decode_request_def request_of_def
        decode_transaction_def get_unsatisfied_fields_def Request_def dataclass_init_def
        kwarg_def unpack3_def method_handlers_def getitem_str_keyed_def plain_loads_def
        with_kwargs_def bind_kwargs_def get_routines_def new_worker_def inner_merge_def)

theorem response_error_or_feedback_witness:
  "\<not> (populated
         [(PStr ''received_time'', PFloat 2), (PStr ''error'', PNone),
          (PStr ''feedback'', PDict [(PStr ''get'', PDict [(PStr ''routines'', PList [])])]),
          (PStr ''sent_time'', PFloat 3)] ''error''
       \<and> populated
         [(PStr ''received_time'', PFloat 2), (PStr ''error'', PNone),
          (PStr ''feedback'', PDict [(PStr ''get'', PDict [(PStr ''routines'', PList [])])]),
          (PStr ''sent_time'', PFloat 3)] ''feedback'')"
  using response_error_or_feedback [OF feedback_to_send_get_routines] by blast

text \<open>
  Dispatch of single items by the worker's own table. An unknown method is reported in
  the response, with the valid methods; so are an \<^verbatim>\<open>execute\<close> on a component that the
  platform does not hold and a routine whose executor it does not hold.
\<close>

lemma unknown_method_reported:
  assumes "loads received = Inr (request_of t [PList [PStr m, resource, PDict kwargs]])"
    and "m \<notin> {''add'', ''remove'', ''execute'', ''get''}"
  shows "feedback_to_send (to_str hw) loads (method_handlers hw) w received t_received t_sent
     = (w, Inr [(PStr ''received_time'', PFloat t_received),
                (PStr ''error'', PStr (''RuntimeError: Received method '' @ quoted m
                   @ '' is invalid. Try: add, remove, execute, get'')),
                (PStr ''sent_time'', PFloat t_sent)])"
  using assms
  by (simp add: feedback_to_send_def handle_request_def decode_request_def request_of_def
        decode_transaction_def get_unsatisfied_fields_def Request_def dataclass_init_def
        kwarg_def unpack3_def method_handlers_def caught_def)

lemma missing_component_reported:
  assumes "loads received = Inr (request_of t
             [PList [PStr ''execute'', PStr ''component'',
                     PDict [(PStr ''key'', PStr k), (PStr ''operation'', operation)]]])"
    and "platform w = Some p" and "PStr k \<notin> fst ` set (components p)"
  shows "feedback_to_send (to_str hw) loads (method_handlers hw) w received t_received t_sent
     = (w, Inr [(PStr ''received_time'', PFloat t_received),
                (PStr ''error'', PStr (''RuntimeError: Component '' @ quoted (to_str hw (PStr k))
                   @ '' could not be found.'')),
                (PStr ''sent_time'', PFloat t_sent)])"
  using assms
  by (simp add: feedback_to_send_def handle_request_def decode_request_def request_of_def
        decode_transaction_def get_unsatisfied_fields_def Request_def dataclass_init_def
        kwarg_def unpack3_def method_handlers_def getitem_str_keyed_def caught_def
        with_kwargs_def bind_kwargs_def execute_component_def in_platform_def
        component_not_found_def)

text \<open>
  C7 says that an item with an unknown resource, and an item that needs a platform when
  none is set, raise a runtime-state error that is caught and reported in the response.
  A request with the item \<^verbatim>\<open>("add", "gadget", {})\<close> instead leaves \<^verbatim>\<open>_on_receive\<close> with a
  \<^verbatim>\<open>KeyError\<close>, and on a worker without a platform a request with the item
  \<^verbatim>\<open>("get", "components", {})\<close> leaves it with a \<^verbatim>\<open>TypeError\<close>: no response is produced.
\<close>

theorem unknown_resource_not_caught:
  "worker_on_receive no_hardware plain_loads plain_dumps new_worker
     (request_of 1 [PList [PStr ''add'', PStr ''gadget'', PDict []]]) 2 3
     = (new_worker, Inl (KeyError, quoted ''gadget''))
   \<and> worker_on_receive no_hardware plain_loads plain_dumps new_worker
     (request_of 1 [PList [PStr ''get'', PStr ''components'', PDict []]]) 2 3
     = (new_worker, Inl (TypeError, quoted ''NoneType'' @ '' object is not iterable''))"
  by (simp add: worker_on_receive_def on_receive_def feedback_to_send_def handle_request_def
        decode_request_def request_of_def decode_transaction_def get_unsatisfied_fields_def
        Request_def dataclass_init_def kwarg_def unpack3_def method_handlers_def
        getitem_str_keyed_def caught_def with_kwargs_def bind_kwargs_def get_components_def
        plain_loads_def new_worker_def)

lemma unknown_resource_raises:
  assumes "loads received = Inr (request_of t [PList [PStr m, PStr resource, PDict kwargs]])"
    and "map_of (method_handlers hw) m = Some by_resource"
    and "map_of by_resource resource = None"
  shows "worker_on_receive hw loads dumps w received t_received t_sent
     = (w, Inl (KeyError, quoted resource))"
  using assms
  by (simp add: worker_on_receive_def on_receive_def feedback_to_send_def handle_request_def
        decode_request_def request_of_def decode_transaction_def get_unsatisfied_fields_def
        Request_def dataclass_init_def kwarg_def unpack3_def getitem_str_keyed_def caught_def)

section \<open>Properties of the gate network\<close>

subsection \<open>The loop\<close>

text \<open>One unfolding of the loop, by the outcome of the epoch and of the test after it.\<close>

lemma resolve_loop_error: "epoch net st = Inl err \<Longrightarrow> resolve_loop net e st = Some (Inl err)"
  by (subst resolve_loop.simps) simp

lemma resolve_loop_finished:
  "epoch net st = Inr st' \<Longrightarrow> finished net st' (e + 1)
     \<Longrightarrow> resolve_loop net e st = Some (Inr (st', e + 1))"
  by (subst resolve_loop.simps) simp

lemma resolve_loop_continue:
  "epoch net st = Inr st' \<Longrightarrow> \<not> finished net st' (e + 1)
     \<Longrightarrow> resolve_loop net e st = resolve_loop net (e + 1) st'"
  by (subst resolve_loop.simps) simp

text \<open>
  With a ceiling above the current count the loop ends: it leaves by an exception or
  returns, and then at a count that is at most the ceiling.
\<close>

lemma resolve_loop_ceiling:
  assumes "max_epochs net = Some m"
  shows "e < m \<Longrightarrow>
     \<exists>r. resolve_loop net e st = Some r
        \<and> (\<forall>s n. r = Inr (s, n) \<longrightarrow> e < n \<and> n \<le> m \<and> finished net s n)"
proof (induction "nat (m - e)" arbitrary: e st)
  case 0
  then show ?case by simp
next
  case (Suc k)
  show ?case
  proof (cases "epoch net st")
    case (Inl err)
    then show ?thesis by (simp add: resolve_loop_error)
  next
    case (Inr st')
    show ?thesis
    proof (cases "finished net st' (e + 1)")
      case True
      with Inr Suc.prems show ?thesis by (simp add: resolve_loop_finished)
    next
      case False
      with assms have "e + 1 \<noteq> m" by (auto simp: finished_def)
      with Suc.prems have less: "e + 1 < m" by simp
      from Suc.hyps(2) have "k = nat (m - (e + 1))" by simp
      from Suc.hyps(1) [OF this less, of st'] obtain r where
        r: "resolve_loop net (e + 1) st' = Some r"
        and post: "\<forall>s n. r = Inr (s, n) \<longrightarrow> e + 1 < n \<and> n \<le> m \<and> finished net s n"
        by blast
      from Inr False r have "resolve_loop net e st = Some r"
        by (simp add: resolve_loop_continue)
      with post show ?thesis by auto
    qed
  qed
qed

text \<open>
  The loop returns at the first count at which the test holds, and only there: if the test
  fails after each of the first \<open>k\<close> epochs and holds after the next, the loop returns
  then; and whenever the loop returns, that is how.
\<close>

lemma resolve_loop_first_finished:
  assumes "epochs net (Suc k) st0 = Inr st"
    and "finished net st (e + int k + 1)"
    and "\<And>j sj. 1 \<le> j \<Longrightarrow> j \<le> k \<Longrightarrow> epochs net j st0 = Inr sj \<Longrightarrow> \<not> finished net sj (e + int j)"
  shows "resolve_loop net e st0 = Some (Inr (st, e + int k + 1))"
  using assms
proof (induction k arbitrary: st0 e)
  case 0
  then show ?case by (simp add: resolve_loop_finished split: sum.splits)
next
  case (Suc k)
  from Suc.prems(1) obtain s1 where s1: "epoch net st0 = Inr s1"
    and rest: "epochs net (Suc k) s1 = Inr st"
    by (auto split: sum.splits)
  from s1 have "epochs net 1 st0 = Inr s1" by simp
  with Suc.prems(3) [of 1 s1] have nf: "\<not> finished net s1 (e + 1)" by simp
  have "resolve_loop net (e + 1) s1 = Some (Inr (st, (e + 1) + int k + 1))"
  proof (rule Suc.IH [OF rest])
    from Suc.prems(2) show "finished net st (e + 1 + int k + 1)" by (simp add: add.commute add.left_commute)
  next
    fix j sj
    assume "1 \<le> j" "j \<le> k" "epochs net j s1 = Inr sj"
    with s1 have "epochs net (Suc j) st0 = Inr sj" by simp
    with Suc.prems(3) [of "Suc j" sj] \<open>j \<le> k\<close>
    show "\<not> finished net sj (e + 1 + int j)" by (simp add: add.commute add.left_commute)
  qed
  with s1 nf show ?case by (simp add: resolve_loop_continue add.commute add.left_commute)
qed

lemma first_finished_now:
  assumes "epoch net st0 = Inr s1" and "finished net s1 (e + 1)"
  shows "first_finished net e st0 s1 (e + 1)"
  unfolding first_finished_def using assms by (intro exI [of _ 0]) simp

lemma first_finished_later:
  assumes s1: "epoch net st0 = Inr s1" and nf: "\<not> finished net s1 (e + 1)"
    and later: "first_finished net (e + 1) s1 st n"
  shows "first_finished net e st0 st n"
proof -
  from later obtain k where
    k: "n = e + 1 + int k + 1" "epochs net (Suc k) s1 = Inr st" "finished net st n"
    and before: "\<And>j sj. 1 \<le> j \<Longrightarrow> j \<le> k \<Longrightarrow> epochs net j s1 = Inr sj
                   \<Longrightarrow> \<not> finished net sj (e + 1 + int j)"
    unfolding first_finished_def by blast
  have "\<not> finished net sj (e + int j)"
    if "1 \<le> j" "j \<le> Suc k" "epochs net j st0 = Inr sj" for j sj
  proof (cases j)
    case 0
    with that show ?thesis by simp
  next
    case (Suc i)
    show ?thesis
    proof (cases i)
      case 0
      with Suc that s1 nf show ?thesis by simp
    next
      case (Suc i')
      with \<open>j = Suc i\<close> that s1 have "1 \<le> i" "i \<le> k" "epochs net i s1 = Inr sj"
        by simp_all
      then have "\<not> finished net sj (e + 1 + int i)" by (rule before)
      with \<open>j = Suc i\<close> show ?thesis by (simp add: add.commute add.left_commute)
    qed
  qed
  with k s1 show ?thesis
    unfolding first_finished_def
    by (intro exI [of _ "Suc k"]) (simp add: add.commute add.left_commute)
qed

lemma resolve_loop_returns_first:
  assumes ret: "resolve_loop net e st0 = Some r"
  shows "\<forall>st n. r = Inr (st, n) \<longrightarrow> first_finished net e st0 st n"
proof (rule resolve_loop.raw_induct
    [where P = "\<lambda>net e st0 r. \<forall>st n. r = Inr (st, n) \<longrightarrow> first_finished net e st0 st n",
     OF _ ret])
  fix f and net :: "'a gatenetwork" and e st0 r
  assume IH: "\<And>net e st0 r. f net e st0 = Some r
                \<Longrightarrow> \<forall>st n. r = Inr (st, n) \<longrightarrow> first_finished net e st0 st n"
    and eq: "(case epoch net st0 of
                Inl e \<Rightarrow> Some (Inl e)
              | Inr st' \<Rightarrow>
                  if finished net st' (e + 1) then Some (Inr (st', e + 1))
                  else f net (e + 1) st') = Some r"
  show "\<forall>st n. r = Inr (st, n) \<longrightarrow> first_finished net e st0 st n"
  proof (intro allI impI)
    fix st n
    assume r: "r = Inr (st, n)"
    show "first_finished net e st0 st n"
    proof (cases "epoch net st0")
      case (Inl err)
      with eq r show ?thesis by simp
    next
      case (Inr s1)
      show ?thesis
      proof (cases "finished net s1 (e + 1)")
        case True
        with eq r Inr have "st = s1" "n = e + 1" by simp_all
        with True Inr show ?thesis by (simp add: first_finished_now)
      next
        case False
        with eq r Inr have "f net (e + 1) s1 = Some (Inr (st, n))" by simp
        from IH [OF this] have "first_finished net (e + 1) s1 st n" by simp
        with Inr False show ?thesis by (rule first_finished_later)
      qed
    qed
  qed
qed

lemma resolve_loop_first_finished_iff_intro:
  assumes "first_finished net e st0 st n"
  shows "resolve_loop net e st0 = Some (Inr (st, n))"
proof -
  from assms obtain k where k: "n = e + int k + 1" "epochs net (Suc k) st0 = Inr st"
    "finished net st n"
    and before: "\<And>j sj. 1 \<le> j \<Longrightarrow> j \<le> k \<Longrightarrow> epochs net j st0 = Inr sj
                   \<Longrightarrow> \<not> finished net sj (e + int j)"
    unfolding first_finished_def by blast
  from k(3) have "finished net st (e + int k + 1)" by (simp add: k(1))
  with k(2) have "resolve_loop net e st0 = Some (Inr (st, e + int k + 1))"
    using before by (rule resolve_loop_first_finished)
  with k(1) show ?thesis by simp
qed

subsection \<open>A chain of three gates\<close>

text \<open>
  The feed that a child gets from one parent alone. For a dictionary with distinct keys
  (which every Python dictionary has) it is a copy of the parent's result.
\<close>

lemma update_fresh: "k \<notin> fst ` set al \<Longrightarrow> AList.update k v al = al @ [(k, v)]"
  by (induction al) auto

lemma dict_update_fresh:
  "distinct (map fst (acc @ d)) \<Longrightarrow> dict_update acc d = acc @ d"
proof (induction d arbitrary: acc)
  case Nil
  then show ?case by (simp add: dict_update_def)
next
  case (Cons p d)
  obtain k v where p: "p = (k, v)" by (cases p)
  from Cons.prems have fresh: "k \<notin> fst ` set acc" and rest: "distinct (map fst ((acc @ [(k, v)]) @ d))"
    by (auto simp: p)
  have "dict_update acc (p # d) = dict_update (AList.update k v acc) d"
    by (simp add: dict_update_def p)
  also have "\<dots> = dict_update (acc @ [(k, v)]) d"
    using fresh by (simp add: update_fresh)
  also have "\<dots> = (acc @ [(k, v)]) @ d"
    using rest by (rule Cons.IH)
  finally show ?case by (simp add: p)
qed

lemma super_result_of_dict: "distinct (map fst d) \<Longrightarrow> super_result_of (PDict d) = d"
  using dict_update_fresh [of "[]" d] by (simp add: super_result_of_def)

lemma py_dict_update_single:
  "mapping_or_none r \<Longrightarrow> py_dict_update [] (if r \<noteq> PNone then r else PDict []) = Inr (super_result_of r)"
  by (cases r) (simp_all add: mapping_or_none_def py_dict_update_def super_result_of_def dict_update_def)

lemma distinct3:
  "distinct [a, b, c] \<longleftrightarrow> a \<noteq> b \<and> b \<noteq> a \<and> a \<noteq> c \<and> c \<noteq> a \<and> b \<noteq> c \<and> c \<noteq> b"
  by auto

text \<open>The network that the calls \<^verbatim>\<open>add_gate\<close> (three times) and \<^verbatim>\<open>add_edge\<close> (twice) build.\<close>

lemma chain_built:
  assumes "distinct [a, b, c]"
  shows "(case add_edge_net (add_gate (add_gate (add_gate GateNetwork a pa) b pb) c pc) a b of
           Inl e \<Rightarrow> Inl e | Inr net1 \<Rightarrow> add_edge_net net1 b c)
         = Inr \<lparr>graph = [(a, [b]), (b, [c]), (c, [])], procedures = [(a, pa), (b, pb), (c, pc)],
                conditional_edges = [], max_epochs = None\<rparr>"
  using assms unfolding distinct3
  by (simp add: add_edge_net_def add_gate_def GateNetwork_def add_node_def add_edge_def set_add_def)

text \<open>The three epochs of a run from \<open>a\<close>, one by one.\<close>

lemma chain_epoch1:
  assumes "graph net = [(a, [b]), (b, [c]), (c, [])]" "procedures net = [(a, pa), (b, pb), (c, pc)]"
    "conditional_edges net = []" "distinct [a, b, c]"
    and "mapping_or_none ra" "pb (PDict (super_result_of ra)) = Inr rb"
  shows "epoch net (start_state a ra)
     = Inr \<lparr>current_generation = [(b, rb)], unsatisfied = [], resolved = [],
            to_be_evaluated = [(b, super_result_of ra)], invoked = [a, b]\<rparr>"
  using assms unfolding distinct3
  by (simp add: epoch_def start_state_def visit_tag_def visit_child_def schedule_child_def
      get_in_neighbors_def dict_update_def inner_merge_def py_dict_update_single run_gate_def)

lemma chain_epoch2:
  assumes "graph net = [(a, [b]), (b, [c]), (c, [])]" "procedures net = [(a, pa), (b, pb), (c, pc)]"
    "conditional_edges net = []" "distinct [a, b, c]"
    and "mapping_or_none rb" "pc (PDict (super_result_of rb)) = Inr rc"
  shows "epoch net \<lparr>current_generation = [(b, rb)], unsatisfied = [], resolved = [],
            to_be_evaluated = tbe, invoked = [a, b]\<rparr>
     = Inr \<lparr>current_generation = [(c, rc)], unsatisfied = [], resolved = [],
            to_be_evaluated = [(c, super_result_of rb)], invoked = [a, b, c]\<rparr>"
  using assms unfolding distinct3
  by (simp add: epoch_def start_state_def visit_tag_def visit_child_def schedule_child_def
      get_in_neighbors_def dict_update_def inner_merge_def py_dict_update_single run_gate_def)

lemma chain_epoch3:
  assumes "graph net = [(a, [b]), (b, [c]), (c, [])]" "procedures net = [(a, pa), (b, pb), (c, pc)]"
    "conditional_edges net = []" "distinct [a, b, c]"
  shows "epoch net \<lparr>current_generation = [(c, rc)], unsatisfied = [], resolved = [],
            to_be_evaluated = tbe, invoked = [a, b, c]\<rparr>
     = Inr \<lparr>current_generation = [], unsatisfied = [], resolved = [(c, rc)],
            to_be_evaluated = [], invoked = [a, b, c]\<rparr>"
  using assms unfolding distinct3
  by (simp add: epoch_def start_state_def visit_tag_def visit_child_def schedule_child_def
      get_in_neighbors_def dict_update_def inner_merge_def run_gate_def)

lemma chain_run_gate:
  assumes "graph net = [(a, [b]), (b, [c]), (c, [])]" "procedures net = [(a, pa), (b, pb), (c, pc)]"
  shows "run_gate net a feed = pa feed"
  using assms by (simp add: run_gate_def)

text \<open>
  The run on any network of this shape whose ceiling, if one is set, is at least 3; and
  with a ceiling of 2, where the run returns before \<open>c\<close> has been moved to \<^verbatim>\<open>resolved\<close>.
\<close>

lemma chain_resolves_shape:
  assumes shape: "graph net = [(a, [b]), (b, [c]), (c, [])]"
      "procedures net = [(a, pa), (b, pb), (c, pc)]" "conditional_edges net = []"
    and tags: "distinct [a, b, c]"
    and ceiling: "max_epochs net = None \<or> (\<exists>m\<ge>3. max_epochs net = Some m)"
    and ra: "pa feed = Inr ra" "mapping_or_none ra"
    and rb: "pb (PDict (super_result_of ra)) = Inr rb" "mapping_or_none rb"
    and rc: "pc (PDict (super_result_of rb)) = Inr rc"
  shows "\<exists>s1 s2 s3.
      epochs net 1 (start_state a ra) = Inr s1 \<and> current_generation s1 = [(b, rb)]
        \<and> resolved s1 = []
    \<and> epochs net 2 (start_state a ra) = Inr s2 \<and> current_generation s2 = [(c, rc)]
        \<and> resolved s2 = []
    \<and> resolve_all net a feed = Some (Inr (s3, 3))
        \<and> resolved s3 = [(c, rc)] \<and> invoked s3 = [a, b, c]"
proof -
  define s1 where "s1 = \<lparr>current_generation = [(b, rb)], unsatisfied = [], resolved = [],
    to_be_evaluated = [(b, super_result_of ra)], invoked = [a, b]\<rparr>"
  define s2 where "s2 = \<lparr>current_generation = [(c, rc)], unsatisfied = [], resolved = [],
    to_be_evaluated = [(c, super_result_of rb)], invoked = [a, b, c]\<rparr>"
  define s3 where "s3 = \<lparr>current_generation = [], unsatisfied = [], resolved = [(c, rc)],
    to_be_evaluated = [], invoked = [a, b, c]\<rparr>"
  have e1: "epoch net (start_state a ra) = Inr s1"
    unfolding s1_def using shape tags ra(2) rb(1) by (rule chain_epoch1)
  have e2: "epoch net s1 = Inr s2"
    unfolding s1_def s2_def using shape tags rb(2) rc by (rule chain_epoch2)
  have e3: "epoch net s2 = Inr s3"
    unfolding s2_def s3_def using shape tags by (rule chain_epoch3)
  have n1: "\<not> finished net s1 (0 + 1)" and n2: "\<not> finished net s2 (1 + 1)"
    and f3: "finished net s3 (2 + 1)"
    using ceiling by (auto simp: finished_def s1_def s2_def s3_def)
  have "resolve_loop net 0 (start_state a ra) = resolve_loop net (0 + 1) s1"
    using e1 n1 by (rule resolve_loop_continue)
  also have "\<dots> = resolve_loop net (1 + 1) s2"
    using resolve_loop_continue [OF e2 n2] by simp
  also have "\<dots> = Some (Inr (s3, 3))"
    using resolve_loop_finished [OF e3 f3] by simp
  finally have "resolve_all net a feed = Some (Inr (s3, 3))"
    using ra(1) chain_run_gate [OF shape(1,2)] by (simp add: resolve_all_def)
  moreover have "epochs net 1 (start_state a ra) = Inr s1"
    using e1 by simp
  moreover have "epochs net 2 (start_state a ra) = Inr s2"
    using e1 e2 by (simp add: numeral_2_eq_2)
  ultimately show ?thesis
    by (intro exI [of _ s1] exI [of _ s2] exI [of _ s3]) (simp add: s1_def s2_def s3_def)
qed

lemma chain_ceiling_two:
  assumes shape: "graph net = [(a, [b]), (b, [c]), (c, [])]"
      "procedures net = [(a, pa), (b, pb), (c, pc)]" "conditional_edges net = []"
    and tags: "distinct [a, b, c]"
    and ceiling: "max_epochs net = Some 2"
    and ra: "pa feed = Inr ra" "mapping_or_none ra"
    and rb: "pb (PDict (super_result_of ra)) = Inr rb" "mapping_or_none rb"
    and rc: "pc (PDict (super_result_of rb)) = Inr rc"
  shows "\<exists>s2. resolve_all net a feed = Some (Inr (s2, 2)) \<and> resolved s2 = []
           \<and> current_generation s2 = [(c, rc)]"
proof -
  define s1 where "s1 = \<lparr>current_generation = [(b, rb)], unsatisfied = [], resolved = [],
    to_be_evaluated = [(b, super_result_of ra)], invoked = [a, b]\<rparr>"
  define s2 where "s2 = \<lparr>current_generation = [(c, rc)], unsatisfied = [], resolved = [],
    to_be_evaluated = [(c, super_result_of rb)], invoked = [a, b, c]\<rparr>"
  have e1: "epoch net (start_state a ra) = Inr s1"
    unfolding s1_def using shape tags ra(2) rb(1) by (rule chain_epoch1)
  have e2: "epoch net s1 = Inr s2"
    unfolding s1_def s2_def using shape tags rb(2) rc by (rule chain_epoch2)
  have n1: "\<not> finished net s1 (0 + 1)" and f2: "finished net s2 (1 + 1)"
    using ceiling by (auto simp: finished_def s1_def s2_def)
  have "resolve_loop net 0 (start_state a ra) = resolve_loop net (0 + 1) s1"
    using e1 n1 by (rule resolve_loop_continue)
  also have "\<dots> = Some (Inr (s2, 2))"
    using resolve_loop_finished [OF e2 f2] by simp
  finally have "resolve_all net a feed = Some (Inr (s2, 2))"
    using ra(1) chain_run_gate [OF shape(1,2)] by (simp add: resolve_all_def)
  then show ?thesis
    by (intro exI [of _ s2]) (simp add: s2_def)
qed

lemma chain_built_net:
  assumes tags: "distinct [a, b, c]"
    and net1: "add_edge_net (add_gate (add_gate (add_gate GateNetwork a pa) b pb) c pc) a b = Inr net1"
    and net: "add_edge_net net1 b c = Inr net"
  shows "net = \<lparr>graph = [(a, [b]), (b, [c]), (c, [])], procedures = [(a, pa), (b, pb), (c, pc)],
                conditional_edges = [], max_epochs = None\<rparr>"
  using chain_built [OF tags, of pa pb pc] net1 net by simp

text \<open>
  C1: take the gate network built from gates \<open>a\<close>, \<open>b\<close>, \<open>c\<close> and the unconditional edges
  from \<open>a\<close> to \<open>b\<close> and from \<open>b\<close> to \<open>c\<close>, with no conditional edge, and let the results of
  \<open>a\<close> and \<open>b\<close> be \<^verbatim>\<open>None\<close> or dictionaries. A run from \<open>a\<close> advances one link per epoch:
  after the first epoch the current generation is \<open>b\<close> with its result, after the second
  it is \<open>c\<close> with its result, and nothing is resolved yet. The run returns after a third
  pass, in which no gate runs and \<open>c\<close> moves to \<^verbatim>\<open>resolved\<close>: the mapping returned holds \<open>c\<close>
  alone, with the result of running \<open>c\<close> on the feed made of the result of \<open>b\<close>, and the
  gates run were \<open>a\<close>, \<open>b\<close>, \<open>c\<close>, each once.
\<close>

theorem chain_resolves:
  assumes tags: "distinct [a, b, c]"
    and net1: "add_edge_net (add_gate (add_gate (add_gate GateNetwork a pa) b pb) c pc) a b = Inr net1"
    and net: "add_edge_net net1 b c = Inr net"
    and ra: "pa feed = Inr ra" "mapping_or_none ra"
    and rb: "pb (PDict (super_result_of ra)) = Inr rb" "mapping_or_none rb"
    and rc: "pc (PDict (super_result_of rb)) = Inr rc"
  shows "\<exists>s1 s2 s3.
      epochs net 1 (start_state a ra) = Inr s1 \<and> current_generation s1 = [(b, rb)]
        \<and> resolved s1 = []
    \<and> epochs net 2 (start_state a ra) = Inr s2 \<and> current_generation s2 = [(c, rc)]
        \<and> resolved s2 = []
    \<and> resolve_all net a feed = Some (Inr (s3, 3))
        \<and> resolved s3 = [(c, rc)] \<and> invoked s3 = [a, b, c]"
proof -
  have net_eq: "net = \<lparr>graph = [(a, [b]), (b, [c]), (c, [])],
      procedures = [(a, pa), (b, pb), (c, pc)], conditional_edges = [], max_epochs = None\<rparr>"
    using tags net1 net by (rule chain_built_net)
  have shape: "graph net = [(a, [b]), (b, [c]), (c, [])]"
      "procedures net = [(a, pa), (b, pb), (c, pc)]" "conditional_edges net = []"
    and ceiling: "max_epochs net = None \<or> (\<exists>m\<ge>3. max_epochs net = Some m)"
    by (simp_all add: net_eq)
  from shape tags ceiling ra rb rc show ?thesis
    by (rule chain_resolves_shape [where pa = pa and pb = pb and pc = pc and feed = feed])
qed

theorem chain_resolves_witness:
  "distinct [''A'', ''B'', ''C'']
   \<and> echo (PDict [(PStr ''x'', PInt 1)]) = Inr (PDict [(PStr ''x'', PInt 1)])
   \<and> mapping_or_none (PDict [(PStr ''x'', PInt 1)])
   \<and> count_keys (PDict (super_result_of (PDict [(PStr ''x'', PInt 1)])))
        = Inr (PDict [(PStr ''count'', PInt 1)])
   \<and> (\<exists>s3. resolve_all
          \<lparr>graph = [(''A'', [''B'']), (''B'', [''C'']), (''C'', [])],
           procedures = [(''A'', echo), (''B'', echo), (''C'', count_keys)],
           conditional_edges = [], max_epochs = None\<rparr>
          ''A'' (PDict [(PStr ''x'', PInt 1)]) = Some (Inr (s3, 3))
        \<and> resolved s3 = [(''C'', PDict [(PStr ''count'', PInt 1)])]
        \<and> invoked s3 = [''A'', ''B'', ''C''])"
proof -
  let ?F = "PDict [(PStr ''x'', PInt 1)]"
  let ?N1 = "\<lparr>graph = [(''A'', [''B'']), (''B'', []), (''C'', [])],
        procedures = [(''A'', echo), (''B'', echo), (''C'', count_keys)],
        conditional_edges = [], max_epochs = None\<rparr>"
  let ?N = "\<lparr>graph = [(''A'', [''B'']), (''B'', [''C'']), (''C'', [])],
        procedures = [(''A'', echo), (''B'', echo), (''C'', count_keys)],
        conditional_edges = [], max_epochs = None\<rparr>"
  have tags: "distinct [''A'', ''B'', ''C'']"
    by simp
  have n1: "add_edge_net (add_gate (add_gate (add_gate GateNetwork ''A'' echo) ''B'' echo)
                ''C'' count_keys) ''A'' ''B'' = Inr ?N1"
    by (simp add: add_edge_net_def add_gate_def GateNetwork_def add_node_def add_edge_def
          set_add_def)
  have n: "add_edge_net ?N1 ''B'' ''C'' = Inr ?N"
    by (simp add: add_edge_net_def add_edge_def set_add_def)
  have sr: "super_result_of ?F = [(PStr ''x'', PInt 1)]"
    by (simp add: super_result_of_def dict_update_def)
  have ra: "echo ?F = Inr ?F" and m: "mapping_or_none ?F"
    and rb: "echo (PDict (super_result_of ?F)) = Inr ?F"
    and rc: "count_keys (PDict (super_result_of ?F)) = Inr (PDict [(PStr ''count'', PInt 1)])"
    by (simp_all add: sr echo_def count_keys_def mapping_or_none_def)
  from chain_resolves [of "''A''" "''B''" "''C''" echo echo count_keys ?N1 ?N ?F ?F ?F
      "PDict [(PStr ''count'', PInt 1)]", OF tags n1 n ra m rb m rc]
  have "\<exists>s3. resolve_all ?N ''A'' ?F = Some (Inr (s3, 3))
        \<and> resolved s3 = [(''C'', PDict [(PStr ''count'', PInt 1)])]
        \<and> invoked s3 = [''A'', ''B'', ''C'']"
    by blast
  with tags ra m rc show ?thesis
    by blast
qed

subsection \<open>A conditional edge with a fallback\<close>

text \<open>
  The network that three calls of \<^verbatim>\<open>add_gate\<close> and one call of \<^verbatim>\<open>add_conditional_edge\<close> with
  a fallback tag build, and the two epochs of a run on it when the condition fails. The
  children of \<open>a\<close> are a set, so the run is followed for both orders of iteration.
\<close>

lemma fallback_built:
  assumes "distinct [a, b, c]"
  shows "add_conditional_edge (add_gate (add_gate (add_gate GateNetwork a pa) b pb) c pc)
           a b target path evaluator (Some c)
         = Inr \<lparr>graph = [(a, [b, c]), (b, []), (c, [])],
                procedures = [(a, pa), (b, pb), (c, pc)],
                conditional_edges = [((a, b), (path, evaluator, target)),
                                     ((a, c), (path, negated evaluator, target))],
                max_epochs = None\<rparr>"
  using assms unfolding distinct3
  by (simp add: add_conditional_edge_def add_conditional_edge_plain_def add_edge_net_def
        add_gate_def GateNetwork_def add_node_def add_edge_def set_add_def)

lemma fallback_epoch1:
  assumes "graph net = [(a, cs), (b, []), (c, [])]" "cs = [b, c] \<or> cs = [c, b]"
    "procedures net = [(a, pa), (b, pb), (c, pc)]"
    "conditional_edges net = [((a, b), (path, evaluator, target)),
                              ((a, c), (path, negated evaluator, target))]"
    "distinct [a, b, c]"
    and "get_nested path (PDict d) CHR ''.'' = Inr v" "evaluator v target = Inr False"
    and "pc (PDict (super_result_of (PDict d))) = Inr rc"
  shows "epoch net (start_state a (PDict d))
     = Inr \<lparr>current_generation = [(c, rc)], unsatisfied = [], resolved = [],
            to_be_evaluated = [(c, super_result_of (PDict d))], invoked = [a, c]\<rparr>"
proof -
  have single: "py_dict_update [] (PDict d) = Inr (super_result_of (PDict d))"
    using py_dict_update_single [of "PDict d"] by (simp add: mapping_or_none_def)
  from assms(2) show ?thesis
  proof
    assume "cs = [b, c]"
    with assms show ?thesis
      unfolding distinct3
      by (simp add: epoch_def start_state_def visit_tag_def visit_child_def schedule_child_def
          negated_def dict_update_def inner_merge_def single run_gate_def)
  next
    assume "cs = [c, b]"
    with assms show ?thesis
      unfolding distinct3
      by (simp add: epoch_def start_state_def visit_tag_def visit_child_def schedule_child_def
          negated_def dict_update_def inner_merge_def single run_gate_def)
  qed
qed

lemma fallback_epoch2:
  assumes "graph net = [(a, cs), (b, []), (c, [])]"
    "procedures net = [(a, pa), (b, pb), (c, pc)]"
    "distinct [a, b, c]"
  shows "epoch net \<lparr>current_generation = [(c, rc)], unsatisfied = [], resolved = [],
            to_be_evaluated = tbe, invoked = [a, c]\<rparr>
     = Inr \<lparr>current_generation = [], unsatisfied = [], resolved = [(c, rc)],
            to_be_evaluated = [], invoked = [a, c]\<rparr>"
  using assms unfolding distinct3
  by (simp add: epoch_def visit_tag_def dict_update_def)

lemma fallback_resolves_shape:
  assumes shape: "graph net = [(a, cs), (b, []), (c, [])]" "cs = [b, c] \<or> cs = [c, b]"
    "procedures net = [(a, pa), (b, pb), (c, pc)]"
    "conditional_edges net = [((a, b), (path, evaluator, target)),
                              ((a, c), (path, negated evaluator, target))]"
    and tags: "distinct [a, b, c]"
    and ceiling: "max_epochs net = None \<or> (\<exists>m\<ge>2. max_epochs net = Some m)"
    and ra: "pa feed = Inr (PDict d)"
    and cond: "get_nested path (PDict d) CHR ''.'' = Inr v" "evaluator v target = Inr False"
    and rc: "pc (PDict (super_result_of (PDict d))) = Inr rc"
  shows "\<exists>st. resolve_all net a feed = Some (Inr (st, 2))
           \<and> resolved st = [(c, rc)] \<and> invoked st = [a, c] \<and> b \<notin> set (invoked st)"
proof -
  define s1 where "s1 = \<lparr>current_generation = [(c, rc)], unsatisfied = [], resolved = [],
            to_be_evaluated = [(c, super_result_of (PDict d))], invoked = [a, c]\<rparr>"
  define s2 where "s2 = \<lparr>current_generation = [], unsatisfied = [], resolved = [(c, rc)],
            to_be_evaluated = [], invoked = [a, c]\<rparr>"
  have e1: "epoch net (start_state a (PDict d)) = Inr s1"
    unfolding s1_def using shape tags cond rc by (rule fallback_epoch1)
  have e2: "epoch net s1 = Inr s2"
    unfolding s1_def s2_def using shape(1,3) tags by (rule fallback_epoch2)
  have n1: "\<not> finished net s1 (0 + 1)" and f2: "finished net s2 (1 + 1)"
    using ceiling by (auto simp: finished_def s1_def s2_def)
  have "resolve_loop net 0 (start_state a (PDict d)) = resolve_loop net (0 + 1) s1"
    using e1 n1 by (rule resolve_loop_continue)
  also have "\<dots> = Some (Inr (s2, 2))"
    using resolve_loop_finished [OF e2 f2] by simp
  finally have "resolve_all net a feed = Some (Inr (s2, 2))"
    using ra shape(1,3) by (simp add: resolve_all_def run_gate_def)
  moreover have "b \<notin> set (invoked s2)"
    using tags by (auto simp: s2_def)
  ultimately show ?thesis
    by (intro exI [of _ s2]) (simp add: s2_def)
qed

text \<open>
  C5: take the gate network built from gates \<open>a\<close>, \<open>b\<close>, \<open>c\<close> and a conditional edge from
  \<open>a\<close> to \<open>b\<close> with fallback \<open>c\<close>, and let the evaluator say no on the value found at the
  path in the result of \<open>a\<close>. A run from \<open>a\<close> returns with \<open>c\<close> alone in \<^verbatim>\<open>resolved\<close>, holding
  the result of running \<open>c\<close> on the feed made of the result of \<open>a\<close>; the gates run were
  \<open>a\<close> and \<open>c\<close>, so the procedure of \<open>b\<close> was never invoked.
\<close>

theorem fallback_resolves:
  assumes tags: "distinct [a, b, c]"
    and net: "add_conditional_edge (add_gate (add_gate (add_gate GateNetwork a pa) b pb) c pc)
                a b target path evaluator (Some c) = Inr net"
    and ra: "pa feed = Inr (PDict d)"
    and cond: "get_nested path (PDict d) CHR ''.'' = Inr v" "evaluator v target = Inr False"
    and rc: "pc (PDict (super_result_of (PDict d))) = Inr rc"
  shows "\<exists>st. resolve_all net a feed = Some (Inr (st, 2))
           \<and> resolved st = [(c, rc)] \<and> invoked st = [a, c] \<and> b \<notin> set (invoked st)"
proof -
  have net_eq: "net = \<lparr>graph = [(a, [b, c]), (b, []), (c, [])],
                procedures = [(a, pa), (b, pb), (c, pc)],
                conditional_edges = [((a, b), (path, evaluator, target)),
                                     ((a, c), (path, negated evaluator, target))],
                max_epochs = None\<rparr>"
    using fallback_built [OF tags, of pa pb pc target path evaluator] net by simp
  have shape: "graph net = [(a, [b, c]), (b, []), (c, [])]" "[b, c] = [b, c] \<or> [b, c] = [c, b]"
    "procedures net = [(a, pa), (b, pb), (c, pc)]"
    "conditional_edges net = [((a, b), (path, evaluator, target)),
                              ((a, c), (path, negated evaluator, target))]"
    and ceiling: "max_epochs net = None \<or> (\<exists>m\<ge>2. max_epochs net = Some m)"
    by (simp_all add: net_eq)
  from shape tags ceiling ra cond rc show ?thesis
    by (rule fallback_resolves_shape [where pa = pa and pb = pb and pc = pc and feed = feed
          and evaluator = evaluator])
qed

theorem fallback_resolves_witness:
  "distinct [''A'', ''B'', ''C'']
   \<and> get_nested ''mode'' stop_feed CHR ''.'' = Inr (PStr ''stop'')
   \<and> equals (PStr ''stop'') (PStr ''go'') = Inr False
   \<and> (\<exists>st. resolve_all
          \<lparr>graph = [(''A'', [''B'', ''C'']), (''B'', []), (''C'', [])],
           procedures = [(''A'', echo), (''B'', never_called), (''C'', count_keys)],
           conditional_edges = [((''A'', ''B''), (''mode'', equals, PStr ''go'')),
                                ((''A'', ''C''), (''mode'', negated equals, PStr ''go''))],
           max_epochs = None\<rparr>
          ''A'' stop_feed = Some (Inr (st, 2))
        \<and> resolved st = [(''C'', PDict [(PStr ''count'', PInt 1)])]
        \<and> ''B'' \<notin> set (invoked st))"
proof -
  let ?N = "\<lparr>graph = [(''A'', [''B'', ''C'']), (''B'', []), (''C'', [])],
           procedures = [(''A'', echo), (''B'', never_called), (''C'', count_keys)],
           conditional_edges = [((''A'', ''B''), (''mode'', equals, PStr ''go'')),
                                ((''A'', ''C''), (''mode'', negated equals, PStr ''go''))],
           max_epochs = None\<rparr>"
  have tags: "distinct [''A'', ''B'', ''C'']"
    by simp
  have n: "add_conditional_edge
             (add_gate (add_gate (add_gate GateNetwork ''A'' echo) ''B'' never_called)
                ''C'' count_keys)
             ''A'' ''B'' (PStr ''go'') ''mode'' equals (Some ''C'') = Inr ?N"
    by (simp add: add_conditional_edge_def add_conditional_edge_plain_def add_edge_net_def
          add_gate_def GateNetwork_def add_node_def add_edge_def set_add_def)
  have ra: "echo stop_feed = Inr (PDict [(PStr ''mode'', PStr ''stop'')])"
    by (simp add: echo_def stop_feed_def)
  have g: "get_nested ''mode'' (PDict [(PStr ''mode'', PStr ''stop'')]) CHR ''.'' = Inr (PStr ''stop'')"
    by (simp add: get_nested_def)
  have ev: "equals (PStr ''stop'') (PStr ''go'') = Inr False"
    by (simp add: equals_def)
  have rc: "count_keys (PDict (super_result_of (PDict [(PStr ''mode'', PStr ''stop'')])))
              = Inr (PDict [(PStr ''count'', PInt 1)])"
    by (simp add: count_keys_def super_result_of_def dict_update_def)
  from fallback_resolves [of "''A''" "''B''" "''C''" echo never_called count_keys
      "PStr ''go''" "''mode''" equals ?N stop_feed "[(PStr ''mode'', PStr ''stop'')]"
      "PStr ''stop''" "PDict [(PStr ''count'', PInt 1)]", OF tags n ra g ev rc]
  have "\<exists>st. resolve_all ?N ''A'' stop_feed = Some (Inr (st, 2))
        \<and> resolved st = [(''C'', PDict [(PStr ''count'', PInt 1)])]
        \<and> ''B'' \<notin> set (invoked st)"
    by blast
  with tags g ev show ?thesis
    by (simp add: stop_feed_def)
qed

subsection \<open>The epoch ceiling\<close>

lemma set_max_epochs_Inr:
  "set_max_epochs net0 m = Inr net \<longleftrightarrow> 1 \<le> m \<and> net = net0\<lparr>max_epochs := Some m\<rparr>"
  by (auto simp: set_max_epochs_def)

lemma resolve_all_first_finished:
  assumes "run_gate net start feed = Inr r0"
  shows "resolve_all net start feed = Some (Inr (st, n))
           \<longleftrightarrow> first_finished net 0 (start_state start r0) st n"
proof
  assume "resolve_all net start feed = Some (Inr (st, n))"
  with assms have "resolve_loop net 0 (start_state start r0) = Some (Inr (st, n))"
    by (simp add: resolve_all_def)
  from resolve_loop_returns_first [OF this]
  show "first_finished net 0 (start_state start r0) st n" by simp
next
  assume "first_finished net 0 (start_state start r0) st n"
  then have "resolve_loop net 0 (start_state start r0) = Some (Inr (st, n))"
    by (rule resolve_loop_first_finished_iff_intro)
  with assms show "resolve_all net start feed = Some (Inr (st, n))"
    by (simp add: resolve_all_def)
qed

text \<open>
  C6: on a network on which \<^verbatim>\<open>set_max_epochs(m)\<close> has succeeded, every run ends: it is left
  by an exception or it returns, after at least one and at most \<open>m\<close> epochs, so after exactly
  one epoch when \<open>m\<close> is 1, and at its return the current generation is empty or the epoch
  count is \<open>m\<close>. On any network, with or without a ceiling, a run returns a state and a
  count exactly when that count is the first at which the current generation is empty
  or the ceiling is reached, and the state is the one after that many epochs.
\<close>

theorem epoch_ceiling:
  assumes "set_max_epochs net0 m = Inr net"
  shows "(\<exists>r. resolve_all net start feed = Some r
            \<and> (\<forall>st n. r = Inr (st, n) \<longrightarrow>
                  1 \<le> n \<and> n \<le> m \<and> (m = 1 \<longrightarrow> n = 1)
                  \<and> (current_generation st = [] \<or> n = m)))
       \<and> (run_gate net' start' feed' = Inr r0 \<longrightarrow>
            (resolve_all net' start' feed' = Some (Inr (st', n'))
               \<longleftrightarrow> first_finished net' 0 (start_state start' r0) st' n'))"
proof (intro conjI impI)
  from assms have m: "1 \<le> m" and ceiling: "max_epochs net = Some m"
    by (auto simp: set_max_epochs_Inr)
  show "\<exists>r. resolve_all net start feed = Some r
            \<and> (\<forall>st n. r = Inr (st, n) \<longrightarrow>
                  1 \<le> n \<and> n \<le> m \<and> (m = 1 \<longrightarrow> n = 1)
                  \<and> (current_generation st = [] \<or> n = m))"
  proof (cases "run_gate net start feed")
    case (Inl err)
    then show ?thesis by (simp add: resolve_all_def)
  next
    case (Inr r0)
    from m have "0 < m" by simp
    from resolve_loop_ceiling [OF ceiling this, of "start_state start r0"]
    obtain r where r: "resolve_loop net 0 (start_state start r0) = Some r"
      and post: "\<forall>s n. r = Inr (s, n) \<longrightarrow> 0 < n \<and> n \<le> m \<and> finished net s n"
      by blast
    from Inr r have "resolve_all net start feed = Some r"
      by (simp add: resolve_all_def)
    moreover have "1 \<le> n \<and> n \<le> m \<and> (m = 1 \<longrightarrow> n = 1)
        \<and> (current_generation s = [] \<or> n = m)" if "r = Inr (s, n)" for s n
      using post that ceiling by (auto simp: finished_def)
    ultimately show ?thesis by blast
  qed
next
  assume "run_gate net' start' feed' = Inr r0"
  then show "resolve_all net' start' feed' = Some (Inr (st', n'))
               \<longleftrightarrow> first_finished net' 0 (start_state start' r0) st' n'"
    by (rule resolve_all_first_finished)
qed

text \<open>
  The loop of the scenario. An edge from a gate to itself cannot be added; a gate stays
  in the current generation for ever when its only edge is conditional and the condition
  fails. On such a network a run without a ceiling repeats the same epoch and never
  returns; with the ceiling 1 it returns after the first.
\<close>

lemma stuck_built:
  "add_conditional_edge (add_gate (add_gate GateNetwork ''A'' echo) ''B'' never_called)
     ''A'' ''B'' (PStr ''go'') ''mode'' equals None = Inr stuck_network"
  by (simp add: add_conditional_edge_def add_conditional_edge_plain_def add_edge_net_def
        add_gate_def GateNetwork_def add_node_def add_edge_def set_add_def stuck_network_def)

lemma self_loop_rejected:
  "add_conditional_edge net a a target path evaluator fallback
     = Inl (ValueError, ''A node cannot be connected to itself'')"
  by (simp add: add_conditional_edge_def add_conditional_edge_plain_def add_edge_net_def
        add_edge_def)

lemma stuck_epoch:
  "graph net = graph stuck_network \<Longrightarrow> procedures net = procedures stuck_network
   \<Longrightarrow> conditional_edges net = conditional_edges stuck_network
   \<Longrightarrow> epoch net (start_state ''A'' stop_feed) = Inr (start_state ''A'' stop_feed)"
  by (simp add: epoch_def start_state_def stuck_network_def stop_feed_def visit_tag_def
        visit_child_def get_nested_def equals_def dict_update_def)

lemma stuck_forever: "resolve_all stuck_network ''A'' stop_feed = None"
proof -
  have "resolve_loop stuck_network e (start_state ''A'' stop_feed) = None" for e
  proof (rule ccontr)
    assume "resolve_loop stuck_network e (start_state ''A'' stop_feed) \<noteq> None"
    then obtain r where ret: "resolve_loop stuck_network e (start_state ''A'' stop_feed) = Some r"
      by blast
    have "stuck_network = stuck_network \<and> start_state ''A'' stop_feed = start_state ''A'' stop_feed
            \<longrightarrow> False"
    proof (rule resolve_loop.raw_induct
        [where P = "\<lambda>net e st r. net = stuck_network \<and> st = start_state ''A'' stop_feed \<longrightarrow> False",
         OF _ ret])
      fix f and net :: "string gatenetwork" and e st r
      assume IH: "\<And>net e st r. f net e st = Some r
                    \<Longrightarrow> net = stuck_network \<and> st = start_state ''A'' stop_feed \<longrightarrow> False"
        and eq: "(case epoch net st of
                    Inl e \<Rightarrow> Some (Inl e)
                  | Inr st' \<Rightarrow>
                      if finished net st' (e + 1) then Some (Inr (st', e + 1))
                      else f net (e + 1) st') = Some r"
      show "net = stuck_network \<and> st = start_state ''A'' stop_feed \<longrightarrow> False"
      proof
        assume a: "net = stuck_network \<and> st = start_state ''A'' stop_feed"
        then have ep: "epoch net st = Inr (start_state ''A'' stop_feed)"
          by (simp add: stuck_epoch)
        have "\<not> finished net (start_state ''A'' stop_feed) (e + 1)"
          using a by (simp add: finished_def start_state_def stuck_network_def)
        with eq ep have "f net (e + 1) (start_state ''A'' stop_feed) = Some r"
          by simp
        from IH [OF this] a show False by simp
      qed
    qed
    then show False by simp
  qed
  then show ?thesis
    by (simp add: resolve_all_def run_gate_def stuck_network_def echo_def stop_feed_def
          start_state_def)
qed

theorem epoch_ceiling_witness:
  "set_max_epochs stuck_network 1 = Inr (stuck_network\<lparr>max_epochs := Some 1\<rparr>)
   \<and> resolve_all (stuck_network\<lparr>max_epochs := Some 1\<rparr>) ''A'' stop_feed
       = Some (Inr (start_state ''A'' stop_feed, 1))
   \<and> resolved (start_state ''A'' stop_feed) = []
   \<and> resolve_all stuck_network ''A'' stop_feed = None"
proof -
  let ?N = "stuck_network\<lparr>max_epochs := Some 1\<rparr>"
  have s: "set_max_epochs stuck_network 1 = Inr ?N"
    by (simp add: set_max_epochs_def)
  have ep: "epoch ?N (start_state ''A'' stop_feed) = Inr (start_state ''A'' stop_feed)"
    by (rule stuck_epoch) simp_all
  have run: "run_gate ?N ''A'' stop_feed = Inr stop_feed"
    by (simp add: run_gate_def stuck_network_def echo_def)
  have "first_finished ?N 0 (start_state ''A'' stop_feed) (start_state ''A'' stop_feed) (0 + 1)"
    using ep by (rule first_finished_now) (simp add: finished_def)
  with epoch_ceiling [OF s, of "''A''" stop_feed ?N "''A''" stop_feed stop_feed
      "start_state ''A'' stop_feed" 1] run
  have "resolve_all ?N ''A'' stop_feed = Some (Inr (start_state ''A'' stop_feed, 1))"
    by simp
  with s stuck_forever show ?thesis
    by (simp add: start_state_def)
qed

end
